theory Spec2Isabelle
  imports Complex_Main
begin

section \<open>Python values shared by both components\<close>

text \<open>
  An exception is a value. Only instances of Python's \<open>Exception\<close> are modelled (the
  handlers of the source are all \<open>except Exception\<close>); task cancellation and interpreter
  exit are outside the model. Python floats are modelled by \<open>real\<close>: rounding, infinities
  and NaN are outside the model.
\<close>

datatype error = ValueError | IndexError | KeyError | TypeError | OtherError string

section \<open>Weighted sampler (expression_selector.py, weighted_sample)\<close>

text \<open>\<open>itertools.accumulate(weights)\<close>: the running sums.\<close>

fun accumulate_from :: "real \<Rightarrow> real list \<Rightarrow> real list" where
  "accumulate_from acc [] = []"
| "accumulate_from acc (w # ws) = (acc + w) # accumulate_from (acc + w) ws"

definition accumulate :: "real list \<Rightarrow> real list" where
  "accumulate ws = accumulate_from 0 ws"

text \<open>\<open>bisect.bisect_right(a, x, lo, hi)\<close>, the binary search of the standard library.\<close>

function bisect_right :: "real list \<Rightarrow> real \<Rightarrow> nat \<Rightarrow> nat \<Rightarrow> nat" where
  "bisect_right a x lo hi =
     (if lo < hi then
        (let mid = (lo + hi) div 2 in
         if x < a ! mid then bisect_right a x lo mid else bisect_right a x (mid + 1) hi)
      else lo)"
  by pat_completeness auto
termination
  by (relation "measure (\<lambda>(a, x, lo, hi). hi - lo)") auto

declare bisect_right.simps [simp del]

text \<open>
  \<open>random.choices(range(n), weights=weights)[0]\<close>, where \<open>u\<close> is the value \<open>random()\<close>
  returns for this draw. The standard library (Python 3.9 and later) raises ValueError when
  the number of weights is not \<open>n\<close> or their total is not positive, and IndexError on
  \<open>cum_weights[-1]\<close> when there is no weight at all; otherwise the index is found by
  bisection of the cumulative weights below \<open>hi = n - 1\<close>.
\<close>

definition choices_index :: "nat \<Rightarrow> real list \<Rightarrow> real \<Rightarrow> error + nat" where
  "choices_index n weights u =
     (let cum_weights = accumulate weights in
      if length cum_weights \<noteq> n then Inl ValueError
      else if cum_weights = [] then Inl IndexError
      else
        (let total = last cum_weights in
         if total \<le> 0 then Inl ValueError
         else Inr (bisect_right cum_weights (u * total) 0 (n - 1))))"

text \<open>\<open>list.pop(i)\<close> for a non-negative index: IndexError out of range.\<close>

definition list_pop :: "'a list \<Rightarrow> nat \<Rightarrow> error + ('a \<times> 'a list)" where
  "list_pop xs i =
     (if i < length xs then Inr (xs ! i, take i xs @ drop (Suc i) xs) else Inl IndexError)"

text \<open>
  The \<open>for _ in range(k)\<close> loop. \<open>draws\<close> is the sequence of values \<open>random()\<close> returns
  and \<open>d\<close> counts the draws made so far; the result carries the new count.
\<close>

fun sample_loop ::
  "(nat \<Rightarrow> real) \<Rightarrow> nat \<Rightarrow> 'a list \<Rightarrow> real list \<Rightarrow> 'a list \<Rightarrow> nat \<Rightarrow> error + ('a list \<times> nat)"
where
  "sample_loop draws 0 population_copy weights_copy selected d = Inr (selected, d)"
| "sample_loop draws (Suc k) population_copy weights_copy selected d =
     (if population_copy = [] then Inr (selected, d)
      else
        (case choices_index (length population_copy) weights_copy (draws d) of
           Inl e \<Rightarrow> Inl e
         | Inr chosen_idx \<Rightarrow>
             (case list_pop population_copy chosen_idx of
                Inl e \<Rightarrow> Inl e
              | Inr (chosen, population_rest) \<Rightarrow>
                  (case list_pop weights_copy chosen_idx of
                     Inl e \<Rightarrow> Inl e
                   | Inr (_, weights_rest) \<Rightarrow>
                       sample_loop draws k population_rest weights_rest
                         (selected @ [chosen]) (Suc d)))))"

definition weighted_sample ::
  "(nat \<Rightarrow> real) \<Rightarrow> 'a list \<Rightarrow> real list \<Rightarrow> int \<Rightarrow> nat \<Rightarrow> error + ('a list \<times> nat)"
where
  "weighted_sample draws population weights k d =
     (if population = [] \<or> weights = [] \<or> k \<le> 0 then Inr ([], d)
      else if int (length population) \<le> k then Inr (population, d)
      else sample_loop draws (nat k) population weights [] d)"

section \<open>Chat identities (expression_selector.py, ExpressionSelector)\<close>

text \<open>
  A Python \<open>str\<close> is modelled by the list of its UTF-8 bytes, so \<open>key.encode()\<close> is the
  identity. Splitting at the ASCII colon and joining with the ASCII underscore give the same
  fields on bytes as on code points. \<open>str.split(":")\<close> never returns an empty list.
\<close>

fun split_colon :: "string \<Rightarrow> string list" where
  "split_colon [] = [[]]"
| "split_colon (c # cs) =
     (if c = CHR '':'' then [] # split_colon cs
      else (case split_colon cs of [] \<Rightarrow> [[c]] | p # ps \<Rightarrow> (c # p) # ps))"

text \<open>\<open>sep.join(components)\<close>.\<close>

fun join :: "string \<Rightarrow> string list \<Rightarrow> string" where
  "join sep [] = []"
| "join sep [x] = x"
| "join sep (x # y # ys) = x @ sep @ join sep (y # ys)"

text \<open>
  \<open>_parse_stream_config_to_chat_id\<close>. The parameter \<open>md5_hexdigest\<close> stands for
  \<open>hashlib.md5(bytes).hexdigest()\<close> of the standard library: the lowercase hexadecimal MD5
  digest of a byte string. No step of the body raises on a byte string, so the
  \<open>except Exception\<close> branch is never taken in the model.
\<close>

definition parse_stream_config_to_chat_id :: "(string \<Rightarrow> string) \<Rightarrow> string \<Rightarrow> string option" where
  "parse_stream_config_to_chat_id md5_hexdigest stream_config_str =
     (let parts = split_colon stream_config_str in
      if length parts \<noteq> 3 then None
      else
        (let platform = parts ! 0;
             id_str = parts ! 1;
             stream_type = parts ! 2;
             is_group = (stream_type = ''group'');
             components =
               (if is_group then [platform, id_str] else [platform, id_str, ''private'']);
             key = join ''_'' components
         in Some (md5_hexdigest key)))"

text \<open>
  The inner loop of \<open>get_related_chat_ids\<close>: the walrus condition keeps a candidate that is
  neither None nor the empty string.
\<close>

fun group_chat_ids :: "(string \<Rightarrow> string) \<Rightarrow> string list \<Rightarrow> string list" where
  "group_chat_ids md5_hexdigest [] = []"
| "group_chat_ids md5_hexdigest (stream_config_str # rest) =
     (case parse_stream_config_to_chat_id md5_hexdigest stream_config_str of
        None \<Rightarrow> group_chat_ids md5_hexdigest rest
      | Some chat_id_candidate \<Rightarrow>
          (if chat_id_candidate \<noteq> [] then
             chat_id_candidate # group_chat_ids md5_hexdigest rest
           else group_chat_ids md5_hexdigest rest))"

text \<open>\<open>get_related_chat_ids\<close>, with the configured \<open>expression_groups\<close> as an argument.\<close>

fun get_related_chat_ids :: "(string \<Rightarrow> string) \<Rightarrow> string list list \<Rightarrow> string \<Rightarrow> string list" where
  "get_related_chat_ids md5_hexdigest [] chat_id = [chat_id]"
| "get_related_chat_ids md5_hexdigest (grp # groups) chat_id =
     (if chat_id \<in> set (group_chat_ids md5_hexdigest grp)
      then group_chat_ids md5_hexdigest grp
      else get_related_chat_ids md5_hexdigest groups chat_id)"

section \<open>Expression store and batch reinforcement (expression_selector.py)\<close>

text \<open>
  Modelled from the spec: the persisted \<open>Expression\<close> record (the peewee model of
  \<open>src.common.database.database_model\<close> is not part of the sources). The fields are those
  of the data model; \<open>create_date\<close> may be absent. The table is the list of its rows in
  the order a query returns them, and \<open>row_id\<close> is the primary key.
\<close>

record expression =
  row_id :: int
  row_chat_id :: string
  row_type :: string
  row_situation :: string
  row_style :: string
  row_count :: real
  row_last_active_time :: real
  row_create_date :: "real option"

text \<open>
  The dictionaries handed around by the selector (built in \<open>get_random_expressions\<close>). The
  four fields \<open>update_expressions_count_batch\<close> reads with \<open>expr.get\<close> are optional: None is
  a missing key (or the value None).
\<close>

record expr_dict =
  d_id :: int
  d_situation :: "string option"
  d_style :: "string option"
  d_count :: real
  d_last_active_time :: real
  d_source_id :: "string option"
  d_type :: "string option"
  d_create_date :: real

text \<open>
  What a call can change or observe: the table, the number of random draws made, the number
  of \<open>time.time()\<close> readings taken, the prompts sent to the LLM so far, and the records
  written with \<open>save()\<close> so far (each write is committed at once).
\<close>

record world =
  db :: "expression list"
  draws_made :: nat
  clock_reads :: nat
  llm_prompts :: "string list"
  saves :: "expression list"

type_synonym update_key = "string \<times> string \<times> string \<times> string"

text \<open>\<open>not v\<close> for an optional string: None and the empty string are falsy.\<close>

definition falsy :: "string option \<Rightarrow> bool" where
  "falsy v = (v = None \<or> v = Some [])"

text \<open>
  The key of one entry of the batch, or None when the entry is skipped with a warning.
  \<open>expr.get("type", "style")\<close> defaults a missing type.
\<close>

definition entry_key :: "expr_dict \<Rightarrow> update_key option" where
  "entry_key expr =
     (let source_id = d_source_id expr;
          expr_type = (case d_type expr of None \<Rightarrow> ''style'' | Some t \<Rightarrow> t);
          situation = d_situation expr;
          style = d_style expr
      in if falsy source_id \<or> falsy situation \<or> falsy style then None
         else Some (the source_id, expr_type, the situation, the style))"

text \<open>
  The first loop: \<open>updates_by_key\<close> is a dict, kept here in insertion order; a key that is
  already present is not stored again.
\<close>

fun collect_updates ::
  "expr_dict list \<Rightarrow> (update_key \<times> expr_dict) list \<Rightarrow> (update_key \<times> expr_dict) list"
where
  "collect_updates [] updates_by_key = updates_by_key"
| "collect_updates (expr # rest) updates_by_key =
     (case entry_key expr of
        None \<Rightarrow> collect_updates rest updates_by_key
      | Some key \<Rightarrow>
          (if map_of updates_by_key key = None
           then collect_updates rest (updates_by_key @ [(key, expr)])
           else collect_updates rest updates_by_key))"

text \<open>The \<open>where\<close> clause of the query of the second loop.\<close>

definition key_matches :: "update_key \<Rightarrow> expression \<Rightarrow> bool" where
  "key_matches key row =
     (case key of (chat_id, expr_type, situation, style) \<Rightarrow>
        row_chat_id row = chat_id \<and> row_type row = expr_type \<and>
        row_situation row = situation \<and> row_style row = style)"

text \<open>\<open>expr_obj.save()\<close>: the row with the primary key of the object is overwritten.\<close>

definition save :: "expression \<Rightarrow> expression list \<Rightarrow> expression list" where
  "save expr_obj rows = map (\<lambda>row. if row_id row = row_id expr_obj then expr_obj else row) rows"

text \<open>
  The body of the second loop for one key. \<open>query.exists()\<close> is false when no row matches;
  \<open>query.get()\<close> is the first matching row. \<open>time_time n\<close> is the \<open>n\<close>-th reading of the
  clock.
\<close>

definition update_one :: "(nat \<Rightarrow> real) \<Rightarrow> real \<Rightarrow> world \<Rightarrow> update_key \<Rightarrow> world" where
  "update_one time_time increment w key =
     (case find (key_matches key) (db w) of
        None \<Rightarrow> w
      | Some expr_obj \<Rightarrow>
          (let current_count = row_count expr_obj;
               new_count = min (current_count + increment) 5.0;
               saved = expr_obj\<lparr>row_count := new_count,
                                row_last_active_time := time_time (clock_reads w)\<rparr>
           in w\<lparr>db := save saved (db w),
                clock_reads := Suc (clock_reads w),
                saves := saves w @ [saved]\<rparr>))"

definition update_expressions_count_batch ::
  "(nat \<Rightarrow> real) \<Rightarrow> expr_dict list \<Rightarrow> real \<Rightarrow> world \<Rightarrow> world"
where
  "update_expressions_count_batch time_time expressions_to_update increment w =
     (if expressions_to_update = [] then w
      else foldl (update_one time_time increment) w
             (map fst (collect_updates expressions_to_update [])))"

section \<open>LLM-driven selection (expression_selector.py, select_suitable_expressions_llm)\<close>

text \<open>
  A parsed JSON document as \<open>json.loads\<close> returns it. A JSON object is a Python dict,
  given by its items.
\<close>

datatype json =
    JNull
  | JBool bool
  | JInt int
  | JFloat real
  | JString string
  | JArray "json list"
  | JObject "(string \<times> json) list"

text \<open>
  The collaborators of the selector, which are not part of the sources: the per-chat
  configuration lookup (it may raise), the configured groups and bot name, the MD5 hex
  digest, the sequences of \<open>random()\<close> and \<open>time.time()\<close> values, the prompt registry
  (\<open>get_prompt_async\<close> followed by \<open>format\<close>; it may raise), the LLM request, of which only
  the content is used (it may raise, and the content may be None), and the JSON repair
  followed by \<open>json.loads\<close> (it may raise).
\<close>

record prompt_args =
  arg_bot_name :: string
  arg_chat_observe_info :: string
  arg_all_situations :: string
  arg_max_num :: int
  arg_target_message :: string
  arg_target_message_extra_block :: string

record selector_env =
  env_get_expression_config_for_chat :: "string \<Rightarrow> error + (bool \<times> bool \<times> int)"
  env_expression_groups :: "string list list"
  env_bot_nickname :: string
  env_md5_hexdigest :: "string \<Rightarrow> string"
  env_random :: "nat \<Rightarrow> real"
  env_time_time :: "nat \<Rightarrow> real"
  env_format_prompt :: "prompt_args \<Rightarrow> error + string"
  env_generate_response_async :: "string \<Rightarrow> error + string option"
  env_repair_json :: "string \<Rightarrow> error + json"

definition can_use_expression_for_chat :: "selector_env \<Rightarrow> string \<Rightarrow> bool" where
  "can_use_expression_for_chat env chat_id =
     (case env_get_expression_config_for_chat env chat_id of
        Inl e \<Rightarrow> False
      | Inr (use_expression, _, _) \<Rightarrow> use_expression)"

text \<open>The query of \<open>get_random_expressions\<close> and the dictionary built from each row.\<close>

definition style_query :: "selector_env \<Rightarrow> string \<Rightarrow> expression list \<Rightarrow> expression list" where
  "style_query env chat_id rows =
     (let related_chat_ids =
            get_related_chat_ids (env_md5_hexdigest env) (env_expression_groups env) chat_id
      in filter (\<lambda>expr. row_chat_id expr \<in> set related_chat_ids \<and> row_type expr = ''style'')
           rows)"

definition expression_to_dict :: "expression \<Rightarrow> expr_dict" where
  "expression_to_dict expr =
     \<lparr>d_id = row_id expr,
      d_situation = Some (row_situation expr),
      d_style = Some (row_style expr),
      d_count = row_count expr,
      d_last_active_time = row_last_active_time expr,
      d_source_id = Some (row_chat_id expr),
      d_type = Some ''style'',
      d_create_date =
        (case row_create_date expr of
           Some create_date \<Rightarrow> create_date
         | None \<Rightarrow> row_last_active_time expr)\<rparr>"

text \<open>
  \<open>get_random_expressions\<close>. Every dictionary has a count, so \<open>expr.get("count", 1)\<close> is its
  count. An exception of the sampler propagates.
\<close>

definition get_random_expressions ::
  "selector_env \<Rightarrow> string \<Rightarrow> int \<Rightarrow> world \<Rightarrow> error + (expr_dict list \<times> world)"
where
  "get_random_expressions env chat_id total_num w =
     (let style_exprs = map expression_to_dict (style_query env chat_id (db w)) in
      if style_exprs \<noteq> [] then
        (let style_weights = map d_count style_exprs in
         case weighted_sample (env_random env) style_exprs style_weights total_num
                (draws_made w) of
           Inl e \<Rightarrow> Inl e
         | Inr (selected_style, d) \<Rightarrow> Inr (selected_style, w\<lparr>draws_made := d\<rparr>))
      else Inr ([], w))"

text \<open>\<open>isinstance(idx, int)\<close> and the integer it is: in Python \<open>bool\<close> is a subclass of
  \<open>int\<close>, with \<open>True == 1\<close> and \<open>False == 0\<close>.\<close>

fun int_value :: "json \<Rightarrow> int option" where
  "int_value (JInt n) = Some n"
| "int_value (JBool b) = Some (if b then 1 else 0)"
| "int_value _ = None"

text \<open>
  \<open>for idx in selected_indices\<close>: a list gives its elements, a string its characters, a
  dict its keys; any other value is not iterable and raises TypeError.
\<close>

fun py_iter :: "json \<Rightarrow> error + json list" where
  "py_iter (JArray xs) = Inr xs"
| "py_iter (JString s) = Inr (map (\<lambda>c. JString [c]) s)"
| "py_iter (JObject items) = Inr (map (\<lambda>item. JString (fst item)) items)"
| "py_iter _ = Inl TypeError"

text \<open>The loop over the selected indices (lines 280 to 286).\<close>

fun select_loop ::
  "expr_dict list \<Rightarrow> json list \<Rightarrow> expr_dict list \<Rightarrow> int list \<Rightarrow> expr_dict list \<times> int list"
where
  "select_loop all_expressions [] valid_expressions selected_ids =
     (valid_expressions, selected_ids)"
| "select_loop all_expressions (idx # rest) valid_expressions selected_ids =
     (case int_value idx of
        None \<Rightarrow> select_loop all_expressions rest valid_expressions selected_ids
      | Some n \<Rightarrow>
          (if 1 \<le> n \<and> n \<le> int (length all_expressions) then
             (let expression = all_expressions ! nat (n - 1) in
              select_loop all_expressions rest
                (valid_expressions @ [expression]) (selected_ids @ [d_id expression]))
           else select_loop all_expressions rest valid_expressions selected_ids))"

text \<open>
  Lines 272 to 293, inside the \<open>try\<close>: the check of the parsed result, the loop, and the
  reinforcement of what was selected. A TypeError of the iteration is caught by the handler,
  which returns the two empty lists.
\<close>

definition process_result ::
  "selector_env \<Rightarrow> expr_dict list \<Rightarrow> json \<Rightarrow> world \<Rightarrow> (expr_dict list \<times> int list) \<times> world"
where
  "process_result env all_expressions result w =
     (case result of
        JObject items \<Rightarrow>
          (case map_of items ''selected_situations'' of
             None \<Rightarrow> (([], []), w)
           | Some selected_indices \<Rightarrow>
               (case py_iter selected_indices of
                  Inl e \<Rightarrow> (([], []), w)
                | Inr indices \<Rightarrow>
                    (let (valid_expressions, selected_ids) =
                           select_loop all_expressions indices [] []
                     in if valid_expressions \<noteq> [] then
                          ((valid_expressions, selected_ids),
                           update_expressions_count_batch (env_time_time env)
                             valid_expressions 0.006 w)
                        else ((valid_expressions, selected_ids), w))))
      | _ \<Rightarrow> (([], []), w))"

text \<open>\<open>str(n)\<close> for a non-negative integer: its decimal digits.\<close>

function str_nat :: "nat \<Rightarrow> string" where
  "str_nat n =
     (if n < 10 then [char_of (48 + n)]
      else str_nat (n div 10) @ [char_of (48 + n mod 10)])"
  by pat_completeness auto
termination
  by (relation "measure (\<lambda>n. n)") auto

declare str_nat.simps [simp del]

text \<open>How an f-string renders an optional string: the value None prints as \<open>None\<close>.\<close>

definition str_opt :: "string option \<Rightarrow> string" where
  "str_opt v = (case v of None \<Rightarrow> ''None'' | Some s \<Rightarrow> s)"

text \<open>
  The UTF-8 bytes of the Chinese literals of the source: the two fixed parts of a situation
  line, the clause naming the target message and the extra instruction line.
\<close>

definition lit_when :: string where
  "lit_when = [CHR 0xE5, CHR 0xBD, CHR 0x93]"

definition lit_then_use :: string where
  "lit_then_use =
     [CHR 0xE6, CHR 0x97, CHR 0xB6, CHR 0xEF, CHR 0xBC, CHR 0x8C, CHR 0xE4, CHR 0xBD, CHR 0xBF,
      CHR 0xE7, CHR 0x94, CHR 0xA8]"

definition lit_target_message :: string where
  "lit_target_message =
     [CHR 0xEF, CHR 0xBC, CHR 0x8C, CHR 0xE7, CHR 0x8E, CHR 0xB0, CHR 0xE5, CHR 0x9C, CHR 0xA8,
      CHR 0xE4, CHR 0xBD, CHR 0xA0, CHR 0xE6, CHR 0x83, CHR 0xB3, CHR 0xE8, CHR 0xA6, CHR 0x81,
      CHR 0xE5, CHR 0x9B, CHR 0x9E, CHR 0xE5, CHR 0xA4, CHR 0x8D, CHR 0xE6, CHR 0xB6, CHR 0x88,
      CHR 0xE6, CHR 0x81, CHR 0xAF, CHR 0xEF, CHR 0xBC, CHR 0x9A]"

definition lit_extra_block :: string where
  "lit_extra_block =
     [CHR 0x34, CHR 0x2E, CHR 0xE8, CHR 0x80, CHR 0x83, CHR 0xE8, CHR 0x99, CHR 0x91, CHR 0xE4,
      CHR 0xBD, CHR 0xA0, CHR 0xE8, CHR 0xA6, CHR 0x81, CHR 0xE5, CHR 0x9B, CHR 0x9E, CHR 0xE5,
      CHR 0xA4, CHR 0x8D, CHR 0xE7, CHR 0x9A, CHR 0x84, CHR 0xE7, CHR 0x9B, CHR 0xAE, CHR 0xE6,
      CHR 0xA0, CHR 0x87, CHR 0xE6, CHR 0xB6, CHR 0x88, CHR 0xE6, CHR 0x81, CHR 0xAF]"

text \<open>
  The loop of lines 221 to 224: each candidate is appended to \<open>all_expressions\<close> and
  rendered as the line \<open>N.<when> situation <then use> style\<close>, numbered from 1.
\<close>

fun enumerate_situations ::
  "expr_dict list \<Rightarrow> expr_dict list \<Rightarrow> string list \<Rightarrow> expr_dict list \<times> string list"
where
  "enumerate_situations [] all_expressions all_situations = (all_expressions, all_situations)"
| "enumerate_situations (expr # rest) all_expressions all_situations =
     enumerate_situations rest (all_expressions @ [expr])
       (all_situations @
          [str_nat (length (all_expressions @ [expr])) @ ''.'' @ lit_when @ '' '' @
           str_opt (d_situation expr) @ '' '' @ lit_then_use @ '' '' @
           str_opt (d_style expr)])"

text \<open>
  Step 4 and 5 of the selection, the body of the \<open>try\<close>: the request is recorded in
  \<open>llm_prompts\<close>; an exception of the request, of the parsing or of the processing is
  caught and gives the two empty lists, as does an empty content.
\<close>

definition select_with_llm ::
  "selector_env \<Rightarrow> expr_dict list \<Rightarrow> string \<Rightarrow> world \<Rightarrow> (expr_dict list \<times> int list) \<times> world"
where
  "select_with_llm env all_expressions prompt w =
     (let w1 = w\<lparr>llm_prompts := llm_prompts w @ [prompt]\<rparr> in
      case env_generate_response_async env prompt of
        Inl e \<Rightarrow> (([], []), w1)
      | Inr content \<Rightarrow>
          (if falsy content then (([], []), w1)
           else
             (case env_repair_json env (the content) of
                Inl e \<Rightarrow> (([], []), w1)
              | Inr result \<Rightarrow> process_result env all_expressions result w1)))"

text \<open>
  \<open>select_suitable_expressions_llm\<close>. The result is the returned pair or the exception
  that propagates (from the retrieval or from the prompt registry, both outside the
  \<open>try\<close>), together with the world after the call.
\<close>

definition select_suitable_expressions_llm ::
  "selector_env \<Rightarrow> string \<Rightarrow> string \<Rightarrow> int \<Rightarrow> string option \<Rightarrow> world \<Rightarrow>
     (error + (expr_dict list \<times> int list)) \<times> world"
where
  "select_suitable_expressions_llm env chat_id chat_info max_num target_message w =
     (if \<not> can_use_expression_for_chat env chat_id then (Inr ([], []), w)
      else
        (case get_random_expressions env chat_id 10 w of
           Inl e \<Rightarrow> (Inl e, w)
         | Inr (style_exprs, w1) \<Rightarrow>
             (if length style_exprs < 10 then (Inr ([], []), w1)
              else
                (let (all_expressions, all_situations) =
                       enumerate_situations style_exprs [] []
                 in if all_expressions = [] then (Inr ([], []), w1)
                    else
                      (let all_situations_str = join [CHR 0x0A] all_situations;
                           target_message_str =
                             (if \<not> falsy target_message
                              then lit_target_message @ the target_message else []);
                           target_message_extra_block =
                             (if \<not> falsy target_message then lit_extra_block else [])
                       in case env_format_prompt env
                                 \<lparr>arg_bot_name = env_bot_nickname env,
                                  arg_chat_observe_info = chat_info,
                                  arg_all_situations = all_situations_str,
                                  arg_max_num = max_num,
                                  arg_target_message = target_message_str,
                                  arg_target_message_extra_block =
                                    target_message_extra_block\<rparr> of
                            Inl e \<Rightarrow> (Inl e, w1)
                          | Inr prompt \<Rightarrow>
                              (case select_with_llm env all_expressions prompt w1 of
                                 (selected, w2) \<Rightarrow> (Inr selected, w2)))))))"

section \<open>Reply generator (reply_generator.py, ReplyGenerator)\<close>

text \<open>
  A message of the observed history, after \<open>UserInfo.from_dict\<close>: the timestamp is read
  with \<open>msg["time"]\<close>, which raises KeyError when the key is missing; the other fields are
  read with defaults.
\<close>

record message =
  msg_time :: "real option"
  msg_user_nickname :: "string option"
  msg_user_id :: "string option"
  msg_processed_plain_text :: "string option"

text \<open>The knowledge cache is a dict from source to content, or a list of contents.\<close>

datatype knowledge = KnowledgeDict "(string \<times> string) list" | KnowledgeList "string list"

text \<open>
  The generator and its collaborators, which are not part of the sources: the LLM request
  (content and metadata, or an exception), the personality text and the bot name, the chat
  observer (each call may raise), the rendering of a timestamp as \<open>HH:MM:SS\<close> (it may
  raise on a timestamp out of range), and the fixed text of the prompt (the f-string of
  lines 95 to 115) as a function of the values it interpolates: the personality line, the
  goal, the knowledge block, the previous-reply block, the rendered history, and whether
  there is a previous reply.
\<close>

record reply_generator =
  rg_generate_response_async :: "string \<Rightarrow> error + (string \<times> string)"
  rg_personality_info :: string
  rg_name :: string
  rg_trigger_update :: "error + unit"
  rg_wait_for_update :: "error + bool"
  rg_get_message_history :: "nat \<Rightarrow> error + message list"
  rg_strftime :: "real \<Rightarrow> error + string"
  rg_prompt_text :: "string \<Rightarrow> string \<Rightarrow> string \<Rightarrow> string \<Rightarrow> string \<Rightarrow> bool \<Rightarrow> string"

text \<open>
  The UTF-8 bytes of the Chinese literals: the label of the bot's own messages, the prefix
  of a sender without nickname, the headers of the knowledge block and of the previous
  reply, the two fixed parts of the personality line, and the apology.
\<close>

definition lit_you_say :: string where
  "lit_you_say = [CHR 0xE4, CHR 0xBD, CHR 0xA0, CHR 0xE8, CHR 0xAF, CHR 0xB4]"

definition lit_user :: string where
  "lit_user = [CHR 0xE7, CHR 0x94, CHR 0xA8, CHR 0xE6, CHR 0x88, CHR 0xB7]"

definition lit_knowledge :: string where
  "lit_knowledge =
     [CHR 0x0A, CHR 0xE7, CHR 0x9B, CHR 0xB8, CHR 0xE5, CHR 0x85, CHR 0xB3, CHR 0xE7, CHR 0x9F,
      CHR 0xA5, CHR 0xE8, CHR 0xAF, CHR 0x86, CHR 0xEF, CHR 0xBC, CHR 0x9A]"

definition lit_previous_reply :: string where
  "lit_previous_reply =
     [CHR 0x0A, CHR 0xE4, CHR 0xB8, CHR 0x8A, CHR 0xE4, CHR 0xB8, CHR 0x80, CHR 0xE6, CHR 0xAC,
      CHR 0xA1, CHR 0xE7, CHR 0x94, CHR 0x9F, CHR 0xE6, CHR 0x88, CHR 0x90, CHR 0xE7, CHR 0x9A,
      CHR 0x84, CHR 0xE5, CHR 0x9B, CHR 0x9E, CHR 0xE5, CHR 0xA4, CHR 0x8D, CHR 0xEF, CHR 0xBC,
      CHR 0x88, CHR 0xE9, CHR 0x9C, CHR 0x80, CHR 0xE8, CHR 0xA6, CHR 0x81, CHR 0xE6, CHR 0x94,
      CHR 0xB9, CHR 0xE8, CHR 0xBF, CHR 0x9B, CHR 0xEF, CHR 0xBC, CHR 0x89, CHR 0xEF, CHR 0xBC,
      CHR 0x9A, CHR 0x0A]"

definition lit_your_name_is :: string where
  "lit_your_name_is =
     [CHR 0xE4, CHR 0xBD, CHR 0xA0, CHR 0xE7, CHR 0x9A, CHR 0x84, CHR 0xE5, CHR 0x90, CHR 0x8D,
      CHR 0xE5, CHR 0xAD, CHR 0x97, CHR 0xE6, CHR 0x98, CHR 0xAF]"

definition lit_comma :: string where
  "lit_comma = [CHR 0xEF, CHR 0xBC, CHR 0x8C]"

definition apology :: string where
  "apology =
     [CHR 0xE6, CHR 0x8A, CHR 0xB1, CHR 0xE6, CHR 0xAD, CHR 0x89, CHR 0xEF, CHR 0xBC, CHR 0x8C,
      CHR 0xE6, CHR 0x88, CHR 0x91, CHR 0xE7, CHR 0x8E, CHR 0xB0, CHR 0xE5, CHR 0x9C, CHR 0xA8,
      CHR 0xE6, CHR 0x9C, CHR 0x89, CHR 0xE7, CHR 0x82, CHR 0xB9, CHR 0xE6, CHR 0xB7, CHR 0xB7,
      CHR 0xE4, CHR 0xB9, CHR 0xB1, CHR 0xEF, CHR 0xBC, CHR 0x8C, CHR 0xE8, CHR 0xAE, CHR 0xA9,
      CHR 0xE6, CHR 0x88, CHR 0x91, CHR 0xE9, CHR 0x87, CHR 0x8D, CHR 0xE6, CHR 0x96, CHR 0xB0,
      CHR 0xE6, CHR 0x80, CHR 0x9D, CHR 0xE8, CHR 0x80, CHR 0x83, CHR 0xE4, CHR 0xB8, CHR 0x80,
      CHR 0xE4, CHR 0xB8, CHR 0x8B, CHR 0x2E, CHR 0x2E, CHR 0x2E]"

text \<open>The loop of lines 69 to 75 over the observed messages.\<close>

fun render_history :: "reply_generator \<Rightarrow> message list \<Rightarrow> string \<Rightarrow> error + string" where
  "render_history self [] chat_history_text = Inr chat_history_text"
| "render_history self (msg # rest) chat_history_text =
     (case msg_time msg of
        None \<Rightarrow> Inl KeyError
      | Some t \<Rightarrow>
          (case rg_strftime self t of
             Inl e \<Rightarrow> Inl e
           | Inr time_str \<Rightarrow>
               (let named =
                      (if \<not> falsy (msg_user_nickname msg) then the (msg_user_nickname msg)
                       else lit_user @ str_opt (msg_user_id msg));
                    sender = (if named = rg_name self then lit_you_say else named)
                in render_history self rest
                     (chat_history_text @ time_str @ '','' @ sender @ '':'' @
                      (case msg_processed_plain_text msg of None \<Rightarrow> [] | Some text \<Rightarrow> text) @
                      [CHR 0x0A]))))"

text \<open>Lines 78 to 86: the knowledge block, empty for an empty cache.\<close>

definition knowledge_text_of :: "knowledge \<Rightarrow> string" where
  "knowledge_text_of knowledge_cache =
     (case knowledge_cache of
        KnowledgeDict items \<Rightarrow>
          (if items = [] then []
           else lit_knowledge @ concat (map (\<lambda>(source, content). CHR 0x0A # content) items))
      | KnowledgeList items \<Rightarrow>
          (if items = [] then []
           else lit_knowledge @ concat (map (\<lambda>item. CHR 0x0A # item) items)))"

text \<open>
  Everything \<open>generate\<close> does before its \<open>try\<close> (lines 62 to 115): the observer is
  refreshed, the last 20 messages are read and rendered, and the prompt is built. None of
  it is guarded, so an exception here is the exception of the call.
\<close>

definition build_prompt ::
  "reply_generator \<Rightarrow> string \<Rightarrow> knowledge \<Rightarrow> string option \<Rightarrow> error + string"
where
  "build_prompt self goal knowledge_cache previous_reply =
     (case rg_trigger_update self of
        Inl e \<Rightarrow> Inl e
      | Inr _ \<Rightarrow>
          (case rg_wait_for_update self of
             Inl e \<Rightarrow> Inl e
           | Inr _ \<Rightarrow>
               (case rg_get_message_history self 20 of
                  Inl e \<Rightarrow> Inl e
                | Inr messages \<Rightarrow>
                    (case render_history self messages [] of
                       Inl e \<Rightarrow> Inl e
                     | Inr chat_history_text \<Rightarrow>
                         (let knowledge_text = knowledge_text_of knowledge_cache;
                              previous_reply_text =
                                (if \<not> falsy previous_reply
                                 then lit_previous_reply @ the previous_reply else []);
                              personality_text =
                                lit_your_name_is @ rg_name self @ lit_comma @
                                rg_personality_info self
                          in Inr (rg_prompt_text self personality_text goal knowledge_text
                                    previous_reply_text chat_history_text
                                    (\<not> falsy previous_reply)))))))"

text \<open>
  \<open>generate\<close>: the \<open>try\<close> holds the LLM request only; its exception is replaced by the
  apology. \<open>chat_history\<close> and \<open>retry_count\<close> are not used by the body.
\<close>

definition generate ::
  "reply_generator \<Rightarrow> string \<Rightarrow> message list \<Rightarrow> knowledge \<Rightarrow> string option \<Rightarrow> int \<Rightarrow>
     error + string"
where
  "generate self goal chat_history knowledge_cache previous_reply retry_count =
     (case build_prompt self goal knowledge_cache previous_reply of
        Inl e \<Rightarrow> Inl e
      | Inr prompt \<Rightarrow>
          (case rg_generate_response_async self prompt of
             Inl e \<Rightarrow> Inr apology
           | Inr (content, _) \<Rightarrow> Inr content))"

section \<open>Notions used to state the properties\<close>

text \<open>
  Two notions used to state the properties of the batch: the key a stored row is found
  under, and a row after one reinforcement written at clock reading \<open>now\<close>.
\<close>

definition row_key :: "expression \<Rightarrow> update_key" where
  "row_key row = (row_chat_id row, row_type row, row_situation row, row_style row)"

definition reinforced :: "real \<Rightarrow> real \<Rightarrow> expression \<Rightarrow> expression" where
  "reinforced increment now row =
     row\<lparr>row_count := min (row_count row + increment) 5.0, row_last_active_time := now\<rparr>"

section \<open>Example data\<close>

text \<open>
  A small table, a batch and stand-ins for the collaborators, on which the theorems below
  are instantiated. The third row has an empty style.
\<close>

definition example_row1 :: expression where
  "example_row1 =
     \<lparr>row_id = 1, row_chat_id = ''c1'', row_type = ''style'', row_situation = ''greeting'',
      row_style = ''casual'', row_count = 4.95, row_last_active_time = 0,
      row_create_date = None\<rparr>"

definition example_row2 :: expression where
  "example_row2 =
     \<lparr>row_id = 2, row_chat_id = ''c1'', row_type = ''style'', row_situation = ''farewell'',
      row_style = ''formal'', row_count = 1, row_last_active_time = 0,
      row_create_date = Some 7\<rparr>"

definition example_row3 :: expression where
  "example_row3 =
     \<lparr>row_id = 3, row_chat_id = ''c1'', row_type = ''style'', row_situation = ''silence'',
      row_style = '''', row_count = 1, row_last_active_time = 0,
      row_create_date = None\<rparr>"

definition example_world :: world where
  "example_world =
     \<lparr>db = [example_row1, example_row2, example_row3], draws_made = 0, clock_reads = 0,
      llm_prompts = [], saves = []\<rparr>"

definition example_time :: "nat \<Rightarrow> real" where
  "example_time n = 1000 + real n"

definition example_candidates :: "expr_dict list" where
  "example_candidates = map expression_to_dict [example_row1, example_row2, example_row3]"

text \<open>
  The batch: the first row's dictionary, the same key again under another id, an entry
  without style, and an entry whose key matches no row.
\<close>

definition example_batch :: "expr_dict list" where
  "example_batch =
     [expression_to_dict example_row1,
      (expression_to_dict example_row1)\<lparr>d_id := 99\<rparr>,
      (expression_to_dict example_row2)\<lparr>d_style := None\<rparr>,
      (expression_to_dict example_row2)\<lparr>d_source_id := Some ''elsewhere''\<rparr>]"

definition example_env :: selector_env where
  "example_env =
     \<lparr>env_get_expression_config_for_chat = (\<lambda>chat_id. Inr (True, True, 1)),
      env_expression_groups = [],
      env_bot_nickname = ''bot'',
      env_md5_hexdigest = (\<lambda>key. ''md5:'' @ key),
      env_random = (\<lambda>n. 1 / 2),
      env_time_time = example_time,
      env_format_prompt = (\<lambda>args. Inr (arg_all_situations args)),
      env_generate_response_async = (\<lambda>prompt. Inr (Some ''{selected_situations: [1]}'')),
      env_repair_json = (\<lambda>content. Inr (JObject [(''selected_situations'', JArray [JInt 1])]))\<rparr>"

definition example_message :: message where
  "example_message =
     \<lparr>msg_time = Some 0, msg_user_nickname = Some ''alice'', msg_user_id = Some ''42'',
      msg_processed_plain_text = Some ''hello''\<rparr>"

definition example_generator :: reply_generator where
  "example_generator =
     \<lparr>rg_generate_response_async = (\<lambda>prompt. Inl (OtherError ''timeout'')),
      rg_personality_info = ''curious'',
      rg_name = ''bot'',
      rg_trigger_update = Inr (),
      rg_wait_for_update = Inr True,
      rg_get_message_history = (\<lambda>limit. Inr [example_message]),
      rg_strftime = (\<lambda>t. Inr ''12:00:00''),
      rg_prompt_text =
        (\<lambda>personality_text goal knowledge_text previous_reply_text chat_history_text improve.
           goal @ chat_history_text)\<rparr>"

section \<open>Properties of the weighted sampler\<close>

text \<open>
  C6. An empty population, an empty weights list or \<open>k \<le> 0\<close> gives the empty list;
  otherwise a population of at most \<open>k\<close> elements is returned whole, in its order, and no
  random draw is made (the draw counter is returned as it was).
\<close>

theorem weighted_sample_edge_cases:
  "(population = [] \<or> weights = [] \<or> k \<le> 0 \<longrightarrow>
      weighted_sample draws population weights k d = Inr ([], d)) \<and>
   (population \<noteq> [] \<and> weights \<noteq> [] \<and> 0 < k \<and> int (length population) \<le> k \<longrightarrow>
      weighted_sample draws population weights k d = Inr (population, d))"
  by (simp add: weighted_sample_def)

theorem weighted_sample_edge_cases_witness:
  "weighted_sample (\<lambda>n. 1 / 2) ([] :: string list) [1, 2] 3 0 = Inr ([], 0) \<and>
   weighted_sample (\<lambda>n. 1 / 2) [''a'', ''b''] [] 3 0 = Inr ([], 0) \<and>
   weighted_sample (\<lambda>n. 1 / 2) [''a'', ''b''] [1, 2] (- 1) 0 = Inr ([], 0) \<and>
   weighted_sample (\<lambda>n. 1 / 2) [''a'', ''b''] [1, 2] 2 0 = Inr ([''a'', ''b''], 0)"
  using weighted_sample_edge_cases [of "[] :: string list" "[1, 2]" 3 "\<lambda>n. 1 / 2" 0]
    weighted_sample_edge_cases [of "[''a'', ''b'']" "[]" 3 "\<lambda>n. 1 / 2" 0]
    weighted_sample_edge_cases [of "[''a'', ''b'']" "[1, 2]" "- 1" "\<lambda>n. 1 / 2" 0]
    weighted_sample_edge_cases [of "[''a'', ''b'']" "[1, 2]" 2 "\<lambda>n. 1 / 2" 0]
  by simp

lemma bisect_right_bounds:
  "lo \<le> hi \<Longrightarrow> lo \<le> bisect_right a x lo hi \<and> bisect_right a x lo hi \<le> hi"
proof (induction a x lo hi rule: bisect_right.induct)
  case (1 a x lo hi)
  show ?case
  proof (cases "lo < hi")
    case False
    with "1.prems" show ?thesis by (subst (1 2) bisect_right.simps) simp
  next
    case True
    let ?mid = "(lo + hi) div 2"
    have m: "lo \<le> ?mid" "?mid < hi" using True by auto
    show ?thesis
    proof (cases "x < a ! ?mid")
      case True
      have "lo \<le> bisect_right a x lo ?mid \<and> bisect_right a x lo ?mid \<le> ?mid"
        using "1.IH"(1) [OF \<open>lo < hi\<close> refl True] m by simp
      then show ?thesis using \<open>lo < hi\<close> True m
        by (subst (1 2) bisect_right.simps) (simp add: Let_def)
    next
      case False
      have "?mid + 1 \<le> bisect_right a x (?mid + 1) hi \<and> bisect_right a x (?mid + 1) hi \<le> hi"
        using "1.IH"(2) [OF \<open>lo < hi\<close> refl False] m by simp
      then show ?thesis using \<open>lo < hi\<close> False m
        by (subst (1 2) bisect_right.simps) (simp add: Let_def)
    qed
  qed
qed

lemma length_accumulate_from: "length (accumulate_from acc ws) = length ws"
  by (induction ws arbitrary: acc) auto

lemma last_accumulate_from:
  "ws \<noteq> [] \<Longrightarrow> last (accumulate_from acc ws) = acc + sum_list ws"
proof (induction ws arbitrary: acc)
  case Nil
  then show ?case by simp
next
  case (Cons w ws)
  show ?case
  proof (cases ws)
    case Nil
    then show ?thesis by simp
  next
    case (Cons v vs)
    then have "ws \<noteq> []" by simp
    from Cons.IH [OF this, of "acc + w"] Cons show ?thesis by simp
  qed
qed

lemma sum_list_pos:
  "ws \<noteq> [] \<Longrightarrow> \<forall>w\<in>set ws. (0::real) < w \<Longrightarrow> 0 < sum_list ws"
  by (induction ws) (auto intro: add_pos_nonneg sum_list_nonneg less_imp_le)

lemma choices_index_lt:
  "choices_index n weights u = Inr c \<Longrightarrow> c < n"
proof -
  assume h: "choices_index n weights u = Inr c"
  then have n: "length (accumulate weights) = n" "accumulate weights \<noteq> []"
    by (auto simp: choices_index_def Let_def split: if_splits)
  then have "0 < n" by auto
  moreover from h have "c = bisect_right (accumulate weights) (u * last (accumulate weights)) 0 (n - 1)"
    by (auto simp: choices_index_def Let_def split: if_splits)
  moreover have "bisect_right (accumulate weights) (u * last (accumulate weights)) 0 (n - 1) \<le> n - 1"
    using bisect_right_bounds [of 0 "n - 1"] by simp
  ultimately show ?thesis by simp
qed

lemma choices_index_succeeds:
  assumes "length weights = n" "0 < n" "\<forall>w\<in>set weights. 0 < w"
  shows "\<exists>c. choices_index n weights u = Inr c"
proof -
  have ne: "weights \<noteq> []" using assms by auto
  have "0 < last (accumulate weights)"
    using last_accumulate_from [OF ne, of 0] sum_list_pos [OF ne assms(3)]
    by (simp add: accumulate_def)
  moreover have "length (accumulate weights) = n"
    by (simp add: accumulate_def length_accumulate_from assms)
  moreover have "accumulate weights \<noteq> []" using calculation(2) assms(2) by auto
  ultimately show ?thesis by (simp add: choices_index_def Let_def)
qed

lemma nth_without:
  "c < length xs \<Longrightarrow> j < length xs - 1 \<Longrightarrow>
   (take c xs @ drop (Suc c) xs) ! j = xs ! (if j < c then j else Suc j)"
  by (auto simp: nth_append min_def)

lemma sample_loop_positions:
  "length weights = length population \<Longrightarrow> \<forall>w\<in>set weights. 0 < w \<Longrightarrow>
   \<exists>ps. sample_loop draws k population weights selected d =
          Inr (selected @ map (nth population) ps, d + length ps) \<and>
        length ps = min k (length population) \<and> distinct ps \<and>
        (\<forall>p\<in>set ps. p < length population)"
proof (induction k arbitrary: population weights selected d)
  case 0
  then show ?case by simp
next
  case (Suc k)
  show ?case
  proof (cases "population = []")
    case True
    then show ?thesis by simp
  next
    case False
    then have pos: "0 < length population" by simp
    obtain c where c: "choices_index (length population) weights (draws d) = Inr c"
      using choices_index_succeeds [OF Suc.prems(1) pos Suc.prems(2)] by blast
    have clt: "c < length population" using choices_index_lt [OF c] .
    let ?pop = "take c population @ drop (Suc c) population"
    let ?ws = "take c weights @ drop (Suc c) weights"
    have len: "length ?ws = length ?pop" using Suc.prems(1) by simp
    have posw: "\<forall>w\<in>set ?ws. 0 < w"
      using Suc.prems(2) by (auto dest: in_set_takeD in_set_dropD)
    obtain ps where ps:
      "sample_loop draws k ?pop ?ws (selected @ [population ! c]) (Suc d) =
         Inr ((selected @ [population ! c]) @ map (nth ?pop) ps, Suc d + length ps)"
      "length ps = min k (length ?pop)" "distinct ps" "\<forall>p\<in>set ps. p < length ?pop"
      using Suc.IH [OF len posw, of "selected @ [population ! c]" "Suc d"] by blast
    let ?f = "\<lambda>j. if j < c then j else Suc j"
    let ?qs = "c # map ?f ps"
    have lp: "length ?pop = length population - 1" using clt by simp
    have run: "sample_loop draws (Suc k) population weights selected d =
        sample_loop draws k ?pop ?ws (selected @ [population ! c]) (Suc d)"
      using False c clt Suc.prems(1) by (simp add: list_pop_def)
    have "map (nth ?pop) ps = map (nth population) (map ?f ps)"
      using ps(4) lp clt by (simp add: nth_without)
    then have eq: "sample_loop draws (Suc k) population weights selected d =
        Inr (selected @ map (nth population) ?qs, d + length ?qs)"
      using run ps(1) by simp
    have inj: "inj_on ?f (set ps)" by (auto simp: inj_on_def split: if_splits)
    have d: "distinct ?qs" using ps(3) inj by (auto simp: distinct_map split: if_splits)
    have b: "\<forall>p\<in>set ?qs. p < length population" using ps(4) lp clt by auto
    have "length ps = min k (length population - 1)" using ps(2) lp by (simp only:)
    then have l: "length ?qs = min (Suc k) (length population)"
      using pos by (cases "length population") simp_all
    from eq d b l show ?thesis by blast
  qed
qed

text \<open>
  C7 (as amended). For every non-empty population with a parallel list of strictly positive
  weights and every \<open>k > 0\<close>, whatever the random draws are, the sampler returns (it does
  not raise) exactly \<open>min k (length population)\<close> elements, read from pairwise distinct
  positions \<open>ps\<close> of the population; every returned element belongs to the population.
\<close>

theorem weighted_sample_without_replacement:
  assumes "population \<noteq> []" "length weights = length population"
    "\<forall>w\<in>set weights. 0 < w" "0 < k"
  shows "\<exists>ps d'. weighted_sample draws population weights k d =
            Inr (map (nth population) ps, d') \<and>
          length ps = min (nat k) (length population) \<and> distinct ps \<and>
          (\<forall>p\<in>set ps. p < length population) \<and>
          set (map (nth population) ps) \<subseteq> set population"
proof (cases "int (length population) \<le> k")
  case True
  have "map (nth population) [0..<length population] = population" by (rule map_nth)
  moreover have "length [0..<length population] = min (nat k) (length population)"
    using True by simp
  ultimately show ?thesis using assms True
    by (intro exI [of _ "[0..<length population]"] exI [of _ d])
      (auto simp: weighted_sample_def)
next
  case False
  have w: "weights \<noteq> []" using assms by auto
  obtain ps where ps:
    "sample_loop draws (nat k) population weights [] d =
       Inr ([] @ map (nth population) ps, d + length ps)"
    "length ps = min (nat k) (length population)" "distinct ps"
    "\<forall>p\<in>set ps. p < length population"
    using sample_loop_positions [OF assms(2,3), of draws "nat k" "[]" d] by blast
  have "weighted_sample draws population weights k d =
      Inr (map (nth population) ps, d + length ps)"
    using assms w False ps(1) by (simp add: weighted_sample_def)
  moreover have "set (map (nth population) ps) \<subseteq> set population"
    using ps(4) by auto
  ultimately show ?thesis using ps(2,3,4) by blast
qed

theorem weighted_sample_without_replacement_witness:
  "\<exists>ps d'. weighted_sample (\<lambda>n. 1 / 2) [''a'', ''b'', ''c''] [1, 2, 3] 2 0 =
            Inr (map (nth [''a'', ''b'', ''c'']) ps, d') \<and>
          length ps = 2 \<and> distinct ps \<and> (\<forall>p\<in>set ps. p < 3) \<and>
          set (map (nth [''a'', ''b'', ''c'']) ps) \<subseteq> {''a'', ''b'', ''c''}"
  using weighted_sample_without_replacement
    [of "[''a'', ''b'', ''c'']" "[1, 2, 3]" 2 "\<lambda>n. 1 / 2" 0]
  by (simp add: numeral_2_eq_2 numeral_3_eq_3)

text \<open>
  C7 as stated allows weights that are only non-negative. With all weights zero
  \<open>random.choices\<close> raises ValueError, whatever the draw is, and \<open>weighted_sample\<close> does
  not catch it: nothing is returned.
\<close>

theorem weighted_sample_zero_weights_raises:
  "weighted_sample (\<lambda>n. 1 / 2) [''a'', ''b''] [0, 0] 1 0 = Inl ValueError"
  by (simp add: weighted_sample_def choices_index_def accumulate_def)

section \<open>Properties of the chat identities\<close>

text \<open>
  C5. A descriptor that does not split at the colons into exactly three fields yields no
  identifier. A descriptor \<open>platform:id:type\<close> yields the MD5 hex digest of the bytes of
  \<open>platform_id\<close> when the type is \<open>group\<close> and of \<open>platform_id_private\<close> for every other
  type. Equal descriptors yield equal identifiers.
\<close>

theorem parse_stream_config_to_chat_id_spec:
  "(length (split_colon descriptor) \<noteq> 3 \<longrightarrow>
      parse_stream_config_to_chat_id md5_hexdigest descriptor = None) \<and>
   (split_colon descriptor = [platform, id_str, stream_type] \<longrightarrow>
      parse_stream_config_to_chat_id md5_hexdigest descriptor =
        Some (md5_hexdigest
          (if stream_type = ''group'' then platform @ ''_'' @ id_str
           else platform @ ''_'' @ id_str @ ''_private''))) \<and>
   (descriptor' = descriptor \<longrightarrow>
      parse_stream_config_to_chat_id md5_hexdigest descriptor' =
      parse_stream_config_to_chat_id md5_hexdigest descriptor)"
  by (simp add: parse_stream_config_to_chat_id_def Let_def)

theorem parse_stream_config_to_chat_id_spec_witness:
  "parse_stream_config_to_chat_id (\<lambda>key. ''md5:'' @ key) ''qq:12345'' = None \<and>
   parse_stream_config_to_chat_id (\<lambda>key. ''md5:'' @ key) ''qq:1:group:x'' = None \<and>
   parse_stream_config_to_chat_id (\<lambda>key. ''md5:'' @ key) ''qq:12345:group'' =
     Some ''md5:qq_12345'' \<and>
   parse_stream_config_to_chat_id (\<lambda>key. ''md5:'' @ key) ''qq:12345:private'' =
     Some ''md5:qq_12345_private''"
  using parse_stream_config_to_chat_id_spec
      [of "''qq:12345''" "\<lambda>key. ''md5:'' @ key" "''''" "''''" "''''" "''qq:12345''"]
    parse_stream_config_to_chat_id_spec
      [of "''qq:1:group:x''" "\<lambda>key. ''md5:'' @ key" "''''" "''''" "''''" "''qq:1:group:x''"]
    parse_stream_config_to_chat_id_spec
      [of "''qq:12345:group''" "\<lambda>key. ''md5:'' @ key" "''qq''" "''12345''" "''group''"
        "''qq:12345:group''"]
    parse_stream_config_to_chat_id_spec
      [of "''qq:12345:private''" "\<lambda>key. ''md5:'' @ key" "''qq''" "''12345''" "''private''"
        "''qq:12345:private''"]
  by simp

lemma group_chat_ids_map_filter:
  "\<forall>s. md5_hexdigest s \<noteq> [] \<Longrightarrow>
   group_chat_ids md5_hexdigest grp =
     List.map_filter (parse_stream_config_to_chat_id md5_hexdigest) grp"
proof (induction grp)
  case Nil
  then show ?case by simp
next
  case (Cons s grp)
  then show ?case
    by (auto simp: parse_stream_config_to_chat_id_def Let_def split: option.splits)
qed

lemma get_related_chat_ids_find:
  "get_related_chat_ids md5_hexdigest groups chat_id =
     (case find (\<lambda>grp. chat_id \<in> set (group_chat_ids md5_hexdigest grp)) groups of
        Some grp \<Rightarrow> group_chat_ids md5_hexdigest grp
      | None \<Rightarrow> [chat_id])"
  by (induction groups) auto

text \<open>
  C8. \<open>get_related_chat_ids\<close> returns the chat ids derived from the descriptors of the first
  group whose derived ids contain the input chat id (a descriptor that does not parse
  contributes nothing), and the singleton list of the input chat id when no group does.
  The hypothesis is that of a hex digest: it is never the empty string.
\<close>

theorem get_related_chat_ids_first_group:
  assumes "\<forall>s. md5_hexdigest s \<noteq> []"
  shows "get_related_chat_ids md5_hexdigest groups chat_id =
     (case find (\<lambda>grp. chat_id \<in>
              set (List.map_filter (parse_stream_config_to_chat_id md5_hexdigest) grp)) groups of
        Some grp \<Rightarrow> List.map_filter (parse_stream_config_to_chat_id md5_hexdigest) grp
      | None \<Rightarrow> [chat_id])"
  using assms
  by (simp add: get_related_chat_ids_find group_chat_ids_map_filter split: option.splits)

theorem get_related_chat_ids_first_group_witness:
  "get_related_chat_ids (\<lambda>key. ''md5:'' @ key)
     [[''qq:9:group''], [''qq:1:group'', ''malformed'', ''qq:2:group'']] ''md5:qq_1'' =
     [''md5:qq_1'', ''md5:qq_2''] \<and>
   get_related_chat_ids (\<lambda>key. ''md5:'' @ key)
     [[''qq:9:group''], [''qq:1:group'', ''malformed'', ''qq:2:group'']] ''other'' =
     [''other'']"
  using get_related_chat_ids_first_group
      [of "\<lambda>key. ''md5:'' @ key"
        "[[''qq:9:group''], [''qq:1:group'', ''malformed'', ''qq:2:group'']]" "''md5:qq_1''"]
    get_related_chat_ids_first_group
      [of "\<lambda>key. ''md5:'' @ key"
        "[[''qq:9:group''], [''qq:1:group'', ''malformed'', ''qq:2:group'']]" "''other''"]
  by (simp add: parse_stream_config_to_chat_id_def)

section \<open>Properties of the batch reinforcement\<close>

lemma key_matches_row_key: "key_matches key row \<longleftrightarrow> row_key row = key"
  by (cases key) (auto simp: key_matches_def row_key_def)

lemma row_key_reinforced [simp]: "row_key (reinforced increment now row) = row_key row"
  by (simp add: row_key_def reinforced_def)

lemma row_id_reinforced [simp]: "row_id (reinforced increment now row) = row_id row"
  by (simp add: reinforced_def)

lemma find_key_matches_Some:
  "find (key_matches key) rows = Some row \<Longrightarrow> row \<in> set rows \<and> row_key row = key"
  by (auto simp: find_Some_iff key_matches_row_key)

lemma save_distinct:
  assumes "distinct (map row_id rows)" "r0 \<in> set rows" "row_id r' = row_id r0"
  shows "save r' rows = map (\<lambda>row. if row = r0 then r' else row) rows"
proof -
  have "inj_on row_id (set rows)" using assms(1) by (simp add: distinct_map)
  then have "\<And>row. row \<in> set rows \<Longrightarrow> (row_id row = row_id r0) = (row = r0)"
    using assms(2) by (auto dest: inj_onD)
  then show ?thesis using assms(3) by (simp add: save_def cong: map_cong)
qed

lemma update_one_None:
  "find (key_matches key) (db w) = None \<Longrightarrow> update_one time_time increment w key = w"
  by (simp add: update_one_def)

lemma update_one_Some:
  assumes "distinct (map row_id (db w))" "find (key_matches key) (db w) = Some r0"
  shows "update_one time_time increment w key =
     w\<lparr>db := map (\<lambda>row. if row = r0 then reinforced increment (time_time (clock_reads w)) r0
                        else row) (db w),
       clock_reads := Suc (clock_reads w),
       saves := saves w @ [reinforced increment (time_time (clock_reads w)) r0]\<rparr>"
proof -
  have "r0 \<in> set (db w)" using find_key_matches_Some [OF assms(2)] by simp
  from save_distinct [OF assms(1) this, of "reinforced increment (time_time (clock_reads w)) r0"]
  show ?thesis using assms(2) by (simp add: update_one_def reinforced_def Let_def)
qed

lemma update_one_ids_keys:
  assumes "distinct (map row_id (db w))"
  shows "map row_id (db (update_one time_time increment w key)) = map row_id (db w) \<and>
         map row_key (db (update_one time_time increment w key)) = map row_key (db w)"
proof (cases "find (key_matches key) (db w)")
  case None
  then show ?thesis by (simp add: update_one_None)
next
  case (Some r0)
  show ?thesis by (simp add: update_one_Some [OF assms Some] o_def cong: map_cong)
qed

lemma find_key_matches_None:
  "find (key_matches key) rows = None \<longleftrightarrow> key \<notin> set (map row_key rows)"
  by (auto simp: find_None_iff key_matches_row_key)

lemma find_cong_keys:
  "map row_key rows' = map row_key rows \<Longrightarrow>
   (find (key_matches key) rows' = None) = (find (key_matches key) rows = None)"
  by (simp only: find_key_matches_None)

lemma find_over_map: "find P (map g xs) = map_option g (find (P \<circ> g) xs)"
  by (induction xs) auto

lemma find_after_update_one:
  assumes "distinct (map row_id (db w))" "key' \<noteq> key"
  shows "find (key_matches key') (db (update_one time_time increment w key)) =
         find (key_matches key') (db w)"
proof (cases "find (key_matches key) (db w)")
  case None
  then show ?thesis by (simp add: update_one_None)
next
  case (Some r0)
  let ?g = "\<lambda>row. if row = r0 then reinforced increment (time_time (clock_reads w)) r0 else row"
  have k0: "row_key r0 = key" using find_key_matches_Some [OF Some] by simp
  have pg: "key_matches key' \<circ> ?g = key_matches key'"
    by (auto simp: fun_eq_iff key_matches_row_key)
  have "find (key_matches key') (map ?g (db w)) = map_option ?g (find (key_matches key') (db w))"
    by (simp add: find_over_map pg)
  also have "\<dots> = find (key_matches key') (db w)"
  proof (cases "find (key_matches key') (db w)")
    case None
    then show ?thesis by simp
  next
    case (Some x)
    then have "row_key x = key'" using find_key_matches_Some by blast
    then have "x \<noteq> r0" using k0 assms(2) by auto
    then show ?thesis using Some by simp
  qed
  finally show ?thesis by (simp add: update_one_Some [OF assms(1) Some])
qed

lemma foldl_update_one_ids:
  "distinct (map row_id (db w)) \<Longrightarrow>
   map row_id (db (foldl (update_one time_time increment) w keys)) = map row_id (db w) \<and>
   map row_key (db (foldl (update_one time_time increment) w keys)) = map row_key (db w)"
proof (induction keys arbitrary: w)
  case Nil
  then show ?case by simp
next
  case (Cons key keys)
  have ik: "map row_id (db (update_one time_time increment w key)) = map row_id (db w)"
    "map row_key (db (update_one time_time increment w key)) = map row_key (db w)"
    using update_one_ids_keys [OF Cons.prems] by auto
  then have "distinct (map row_id (db (update_one time_time increment w key)))"
    using Cons.prems by simp
  from Cons.IH [OF this] ik show ?case by simp
qed

lemma clock_update_one:
  "clock_reads w \<le> clock_reads (update_one time_time increment w key)"
  by (simp add: update_one_def Let_def split: option.splits)

lemma clock_foldl_update_one:
  "clock_reads w \<le> clock_reads (foldl (update_one time_time increment) w keys)"
proof (induction keys arbitrary: w)
  case Nil
  then show ?case by simp
next
  case (Cons key keys)
  have "clock_reads w \<le> clock_reads (update_one time_time increment w key)"
    by (rule clock_update_one)
  also have "\<dots> \<le> clock_reads (foldl (update_one time_time increment)
      (update_one time_time increment w key) keys)" by (rule Cons.IH)
  finally show ?case by simp
qed

lemma foldl_update_one_saves:
  "distinct (map row_id (db w)) \<Longrightarrow>
   \<exists>written. saves (foldl (update_one time_time increment) w keys) = saves w @ written \<and>
     map row_key written = filter (\<lambda>key. find (key_matches key) (db w) \<noteq> None) keys \<and>
     clock_reads (foldl (update_one time_time increment) w keys) = clock_reads w + length written"
proof (induction keys arbitrary: w)
  case Nil
  then show ?case by simp
next
  case (Cons key keys)
  let ?w1 = "update_one time_time increment w key"
  have ik: "map row_id (db ?w1) = map row_id (db w)" "map row_key (db ?w1) = map row_key (db w)"
    using update_one_ids_keys [OF Cons.prems] by auto
  then have d1: "distinct (map row_id (db ?w1))" using Cons.prems by simp
  obtain written where wr:
    "saves (foldl (update_one time_time increment) ?w1 keys) = saves ?w1 @ written"
    "map row_key written = filter (\<lambda>key. find (key_matches key) (db ?w1) \<noteq> None) keys"
    "clock_reads (foldl (update_one time_time increment) ?w1 keys) =
       clock_reads ?w1 + length written"
    using Cons.IH [OF d1] by blast
  have same: "(\<lambda>key. find (key_matches key) (db ?w1) \<noteq> None) =
      (\<lambda>key. find (key_matches key) (db w) \<noteq> None)"
    using find_cong_keys [OF ik(2)] by (simp add: fun_eq_iff)
  show ?case
  proof (cases "find (key_matches key) (db w)")
    case None
    then show ?thesis using wr same by (simp add: update_one_None)
  next
    case (Some r0)
    have k0: "row_key r0 = key" using find_key_matches_Some [OF Some] by simp
    let ?s = "reinforced increment (time_time (clock_reads w)) r0"
    have s1: "saves ?w1 = saves w @ [?s]" "clock_reads ?w1 = Suc (clock_reads w)"
      by (simp_all add: update_one_Some [OF Cons.prems Some])
    have "saves (foldl (update_one time_time increment) w (key # keys)) =
        saves w @ (?s # written)" using wr(1) s1 by simp
    moreover have "map row_key (?s # written) =
        filter (\<lambda>key. find (key_matches key) (db w) \<noteq> None) (key # keys)"
      using wr(2) same Some k0 by simp
    moreover have "clock_reads (foldl (update_one time_time increment) w (key # keys)) =
        clock_reads w + length (?s # written)" using wr(3) s1 by simp
    ultimately show ?thesis by blast
  qed
qed

lemma foldl_update_one_rows:
  "distinct (map row_id (db w)) \<Longrightarrow> distinct keys \<Longrightarrow>
   \<exists>T. db (foldl (update_one time_time increment) w keys) =
         map (\<lambda>row. if row_key row \<in> set keys \<and>
                        find (key_matches (row_key row)) (db w) = Some row
                     then reinforced increment (time_time (T row)) row else row) (db w) \<and>
       (\<forall>row. row_key row \<in> set keys \<and> find (key_matches (row_key row)) (db w) = Some row \<longrightarrow>
          clock_reads w \<le> T row \<and>
          T row < clock_reads (foldl (update_one time_time increment) w keys))"
proof (induction keys arbitrary: w)
  case Nil
  then show ?case by simp
next
  case (Cons key keys)
  let ?w1 = "update_one time_time increment w key"
  let ?w' = "foldl (update_one time_time increment) ?w1 keys"
  have ik: "map row_id (db ?w1) = map row_id (db w)"
    using update_one_ids_keys [OF Cons.prems(1)] by auto
  then have d1: "distinct (map row_id (db ?w1))" using Cons.prems(1) by simp
  have dk: "distinct keys" "key \<notin> set keys" using Cons.prems(2) by auto
  obtain T1 where T1:
    "db ?w' = map (\<lambda>row. if row_key row \<in> set keys \<and>
                        find (key_matches (row_key row)) (db ?w1) = Some row
                     then reinforced increment (time_time (T1 row)) row else row) (db ?w1)"
    "\<forall>row. row_key row \<in> set keys \<and> find (key_matches (row_key row)) (db ?w1) = Some row \<longrightarrow>
          clock_reads ?w1 \<le> T1 row \<and> T1 row < clock_reads ?w'"
    using Cons.IH [OF d1 dk(1)] by blast
  have other: "\<And>row. row_key row \<noteq> key \<Longrightarrow>
      find (key_matches (row_key row)) (db ?w1) = find (key_matches (row_key row)) (db w)"
    using find_after_update_one [OF Cons.prems(1)] by blast
  have c1: "clock_reads w \<le> clock_reads ?w1" by (rule clock_update_one)
  show ?case
  proof (cases "find (key_matches key) (db w)")
    case None
    then have w1: "?w1 = w" by (simp add: update_one_None)
    have nokey: "\<And>row. row_key row = key \<Longrightarrow> find (key_matches (row_key row)) (db w) \<noteq> Some row"
      using None by auto
    have "db (foldl (update_one time_time increment) w (key # keys)) =
        map (\<lambda>row. if row_key row \<in> set (key # keys) \<and>
                        find (key_matches (row_key row)) (db w) = Some row
                     then reinforced increment (time_time (T1 row)) row else row) (db w)"
      using T1(1) w1 nokey by (auto cong: map_cong)
    moreover have "\<forall>row. row_key row \<in> set (key # keys) \<and>
          find (key_matches (row_key row)) (db w) = Some row \<longrightarrow>
          clock_reads w \<le> T1 row \<and>
          T1 row < clock_reads (foldl (update_one time_time increment) w (key # keys))"
      using T1(2) w1 nokey by auto
    ultimately show ?thesis by (intro exI [of _ T1]) blast
  next
    case (Some r0)
    have k0: "row_key r0 = key" "r0 \<in> set (db w)"
      using find_key_matches_Some [OF Some] by auto
    let ?s = "reinforced increment (time_time (clock_reads w)) r0"
    let ?g = "\<lambda>row. if row = r0 then ?s else row"
    have w1: "db ?w1 = map ?g (db w)" "clock_reads ?w1 = Suc (clock_reads w)"
      by (simp_all add: update_one_Some [OF Cons.prems(1) Some])
    let ?T = "\<lambda>row. if row = r0 then clock_reads w else T1 row"
    have c2: "clock_reads ?w1 \<le> clock_reads ?w'" by (rule clock_foldl_update_one)
    have first: "\<And>row. row_key row = key \<Longrightarrow>
        (find (key_matches (row_key row)) (db w) = Some row) = (row = r0)"
      using Some k0 by auto
    have "db ?w' = map (\<lambda>row. if row_key row \<in> set (key # keys) \<and>
                        find (key_matches (row_key row)) (db w) = Some row
                     then reinforced increment (time_time (?T row)) row else row) (db w)"
      unfolding T1(1) w1(1) map_map
    proof (rule map_cong [OF refl])
      fix row assume "row \<in> set (db w)"
      show "((\<lambda>row. if row_key row \<in> set keys \<and>
                        find (key_matches (row_key row)) (map ?g (db w)) = Some row
                     then reinforced increment (time_time (T1 row)) row else row) \<circ> ?g) row =
            (if row_key row \<in> set (key # keys) \<and>
                        find (key_matches (row_key row)) (db w) = Some row
                     then reinforced increment (time_time (?T row)) row else row)"
      proof (cases "row_key row = key")
        case True
        then show ?thesis using first [OF True] dk(2) k0 by auto
      next
        case False
        then have "row \<noteq> r0" using k0 by auto
        then show ?thesis using False other [OF False] w1(1) by auto
      qed
    qed
    moreover have "\<forall>row. row_key row \<in> set (key # keys) \<and>
          find (key_matches (row_key row)) (db w) = Some row \<longrightarrow>
          clock_reads w \<le> ?T row \<and> ?T row < clock_reads ?w'"
    proof (intro allI impI)
      fix row
      assume a: "row_key row \<in> set (key # keys) \<and>
          find (key_matches (row_key row)) (db w) = Some row"
      show "clock_reads w \<le> ?T row \<and> ?T row < clock_reads ?w'"
      proof (cases "row_key row = key")
        case True
        then have "row = r0" using first [OF True] a by simp
        then show ?thesis using c2 w1(2) by simp
      next
        case False
        then have "row \<noteq> r0" using k0 by auto
        moreover have "row_key row \<in> set keys \<and>
            find (key_matches (row_key row)) (db ?w1) = Some row"
          using a False other [OF False] by simp
        then have "clock_reads ?w1 \<le> T1 row \<and> T1 row < clock_reads ?w'"
          using T1(2) by blast
        ultimately show ?thesis using w1(2) by simp
      qed
    qed
    ultimately show ?thesis unfolding foldl_Cons by (intro exI [of _ ?T]) blast
  qed
qed

lemma collect_updates_keys:
  "distinct (map fst acc) \<Longrightarrow>
   distinct (map fst (collect_updates batch acc)) \<and>
   set (map fst (collect_updates batch acc)) =
     set (map fst acc) \<union> {key. \<exists>expr\<in>set batch. entry_key expr = Some key}"
proof (induction batch arbitrary: acc)
  case Nil
  then show ?case by simp
next
  case (Cons expr batch)
  show ?case
  proof (cases "entry_key expr")
    case None
    then show ?thesis using Cons.IH [OF Cons.prems] by auto
  next
    case (Some key)
    show ?thesis
    proof (cases "map_of acc key")
      case None
      then have "key \<notin> set (map fst acc)" by (simp add: map_of_eq_None_iff)
      then have "distinct (map fst (acc @ [(key, expr)]))" using Cons.prems by simp
      from Cons.IH [OF this] show ?thesis using Some None by auto
    next
      case (Some entry)
      then have kin: "key \<in> set (map fst acc)"
        by (metis map_of_eq_None_iff option.distinct(1) set_map)
      have step: "collect_updates (expr # batch) acc = collect_updates batch acc"
        using \<open>entry_key expr = Some key\<close> Some by simp
      have "{k. \<exists>e\<in>set (expr # batch). entry_key e = Some k} =
          insert key {k. \<exists>e\<in>set batch. entry_key e = Some k}"
        using \<open>entry_key expr = Some key\<close> by auto
      moreover have "set (map fst acc) \<union> insert key {k. \<exists>e\<in>set batch. entry_key e = Some k} =
          set (map fst acc) \<union> {k. \<exists>e\<in>set batch. entry_key e = Some k}"
        using kin by blast
      ultimately show ?thesis using Cons.IH [OF Cons.prems] by (simp only: step)
    qed
  qed
qed

lemma collect_updates_first:
  "map_of (collect_updates batch acc) key =
     (case map_of acc key of
        Some entry \<Rightarrow> Some entry
      | None \<Rightarrow> find (\<lambda>expr. entry_key expr = Some key) batch)"
proof (induction batch arbitrary: acc)
  case Nil
  then show ?case by (simp split: option.splits)
next
  case (Cons expr batch)
  show ?case
  proof (cases "entry_key expr")
    case None
    then show ?thesis using Cons.IH [of acc] by (simp split: option.splits)
  next
    case (Some k)
    show ?thesis
    proof (cases "map_of acc k")
      case None
      then show ?thesis using Some Cons.IH [of "acc @ [(k, expr)]"]
        by (auto simp: map_add_def split: option.splits)
    next
      case (Some entry)
      then show ?thesis using \<open>entry_key expr = Some k\<close> Cons.IH [of acc]
        by (auto split: option.splits)
    qed
  qed
qed

lemma collect_updates_skips:
  "collect_updates (filter (\<lambda>expr. entry_key expr \<noteq> None) batch) acc = collect_updates batch acc"
  by (induction batch arbitrary: acc) (auto split: option.splits)

lemma foldl_update_one_no_match:
  "\<forall>key\<in>set keys. find (key_matches key) (db w) = None \<Longrightarrow>
   foldl (update_one time_time increment) w keys = w"
  by (induction keys) (simp_all add: update_one_None)

lemma batch_keys_distinct: "distinct (map fst (collect_updates batch []))"
  using collect_updates_keys [of "[]" batch] by simp

lemma batch_keys_member:
  "expr \<in> set batch \<Longrightarrow> entry_key expr = Some key \<Longrightarrow>
   key \<in> set (map fst (collect_updates batch []))"
  using collect_updates_keys [of "[]" batch] by auto

lemma batch_as_foldl:
  "update_expressions_count_batch time_time batch increment w =
     foldl (update_one time_time increment) w (map fst (collect_updates batch []))"
  by (simp add: update_expressions_count_batch_def)

lemma batch_written:
  assumes "distinct (map row_id (db w))"
  shows "\<exists>written.
           saves (update_expressions_count_batch time_time batch increment w) =
             saves w @ written \<and>
           map row_key written =
             filter (\<lambda>key. find (key_matches key) (db w) \<noteq> None)
               (map fst (collect_updates batch [])) \<and>
           distinct (map row_key written)"
proof -
  let ?keys = "map fst (collect_updates batch [])"
  obtain written where wr:
    "saves (foldl (update_one time_time increment) w ?keys) = saves w @ written"
    "map row_key written = filter (\<lambda>key. find (key_matches key) (db w) \<noteq> None) ?keys"
    using foldl_update_one_saves [OF assms, of time_time increment ?keys] by auto
  have "distinct (map row_key written)" using wr(2) batch_keys_distinct [of batch] by simp
  then show ?thesis using wr by (auto simp: batch_as_foldl)
qed

lemma batch_rows:
  assumes "distinct (map row_id (db w))"
  shows "\<exists>T. db (update_expressions_count_batch time_time batch increment w) =
           map (\<lambda>row. if row_key row \<in> set (map fst (collect_updates batch [])) \<and>
                          find (key_matches (row_key row)) (db w) = Some row
                       then reinforced increment (time_time (T row)) row else row) (db w) \<and>
         (\<forall>row. row_key row \<in> set (map fst (collect_updates batch [])) \<and>
                find (key_matches (row_key row)) (db w) = Some row \<longrightarrow>
            clock_reads w \<le> T row \<and>
            T row < clock_reads (update_expressions_count_batch time_time batch increment w))"
  unfolding batch_as_foldl
  by (rule foldl_update_one_rows [OF assms batch_keys_distinct])

lemma batch_row_reinforced:
  assumes "distinct (map row_id (db w))" "i < length (db w)"
    and "expr \<in> set batch" "entry_key expr = Some key"
    and "find (key_matches key) (db w) = Some (db w ! i)"
  shows "\<exists>t. clock_reads w \<le> t \<and>
           t < clock_reads (update_expressions_count_batch time_time batch increment w) \<and>
           db (update_expressions_count_batch time_time batch increment w) ! i =
             reinforced increment (time_time t) (db w ! i)"
proof -
  let ?keys = "map fst (collect_updates batch [])"
  let ?w' = "update_expressions_count_batch time_time batch increment w"
  let ?r = "db w ! i"
  obtain T where T:
    "db ?w' = map (\<lambda>row. if row_key row \<in> set ?keys \<and>
                        find (key_matches (row_key row)) (db w) = Some row
                     then reinforced increment (time_time (T row)) row else row) (db w)"
    "\<forall>row. row_key row \<in> set ?keys \<and> find (key_matches (row_key row)) (db w) = Some row \<longrightarrow>
          clock_reads w \<le> T row \<and> T row < clock_reads ?w'"
    using batch_rows [OF assms(1), of time_time batch increment] by blast
  have k: "row_key ?r = key" using find_key_matches_Some [OF assms(5)] by simp
  have m: "row_key ?r \<in> set ?keys \<and> find (key_matches (row_key ?r)) (db w) = Some ?r"
    using batch_keys_member [OF assms(3,4)] k assms(5) by simp
  have "db ?w' ! i = reinforced increment (time_time (T ?r)) ?r"
    using T(1) m assms(2) by simp
  moreover have "clock_reads w \<le> T ?r \<and> T ?r < clock_reads ?w'" using T(2) m by blast
  ultimately show ?thesis by blast
qed

lemma batch_counts_bounded:
  assumes "distinct (map row_id (db w))" "\<forall>row\<in>set (db w). row_count row \<le> 5.0"
  shows "\<forall>row\<in>set (db (update_expressions_count_batch time_time batch increment w)).
           row_count row \<le> 5.0"
proof -
  obtain T where T:
    "db (update_expressions_count_batch time_time batch increment w) =
       map (\<lambda>row. if row_key row \<in> set (map fst (collect_updates batch [])) \<and>
                        find (key_matches (row_key row)) (db w) = Some row
                     then reinforced increment (time_time (T row)) row else row) (db w)"
    using batch_rows [OF assms(1), of time_time batch increment] by blast
  show ?thesis unfolding T using assms(2) by (auto simp: reinforced_def)
qed

lemma batch_skips_invalid:
  "update_expressions_count_batch time_time
     (filter (\<lambda>expr. entry_key expr \<noteq> None) batch) increment w =
   update_expressions_count_batch time_time batch increment w"
  by (simp only: batch_as_foldl collect_updates_skips)

text \<open>
  C4. For every batch, on a table whose primary keys are distinct: the rows written are,
  in order, exactly the distinct keys of the batch (in order of first occurrence) that match
  a stored row, so entries sharing a key cause at most one write; the entry kept for a key
  is the first one of the batch with that key; an entry without source_id, situation or
  style is skipped and the rest of the batch is processed as if it were not there; the
  table keeps its rows (no record is created), and when no key matches nothing changes.
\<close>

theorem update_expressions_count_batch_writes:
  assumes "distinct (map row_id (db w))"
  shows "(\<exists>written.
            saves (update_expressions_count_batch time_time batch increment w) =
              saves w @ written \<and>
            map row_key written =
              filter (\<lambda>key. find (key_matches key) (db w) \<noteq> None)
                (map fst (collect_updates batch [])) \<and>
            distinct (map row_key written)) \<and>
         distinct (map fst (collect_updates batch [])) \<and>
         (\<forall>key. map_of (collect_updates batch []) key =
                  find (\<lambda>expr. entry_key expr = Some key) batch) \<and>
         update_expressions_count_batch time_time
             (filter (\<lambda>expr. entry_key expr \<noteq> None) batch) increment w =
           update_expressions_count_batch time_time batch increment w \<and>
         map row_id (db (update_expressions_count_batch time_time batch increment w)) =
           map row_id (db w) \<and>
         ((\<forall>key\<in>set (map fst (collect_updates batch [])).
              find (key_matches key) (db w) = None) \<longrightarrow>
            update_expressions_count_batch time_time batch increment w = w)"
proof -
  let ?keys = "map fst (collect_updates batch [])"
  let ?w' = "update_expressions_count_batch time_time batch increment w"
  have c3: "\<forall>key. map_of (collect_updates batch []) key =
      find (\<lambda>expr. entry_key expr = Some key) batch"
    by (simp add: collect_updates_first)
  have c5: "map row_id (db ?w') = map row_id (db w)"
    using foldl_update_one_ids [OF assms] by (simp add: batch_as_foldl)
  have c6: "(\<forall>key\<in>set ?keys. find (key_matches key) (db w) = None) \<longrightarrow> ?w' = w"
    using foldl_update_one_no_match by (metis batch_as_foldl)
  from batch_written [OF assms] batch_keys_distinct c3 batch_skips_invalid c5 c6
  show ?thesis by blast
qed

theorem update_expressions_count_batch_writes_witness:
  "\<exists>written.
     saves (update_expressions_count_batch example_time example_batch 0.1 example_world) = written \<and>
     map row_key written = [(''c1'', ''style'', ''greeting'', ''casual'')]"
  using update_expressions_count_batch_writes
    [where w = example_world and increment = "0.1" and batch = example_batch
       and time_time = example_time]
  by (simp add: example_row1_def example_row2_def example_row3_def example_world_def
      example_batch_def expression_to_dict_def entry_key_def falsy_def key_matches_def)

text \<open>
  C3. For every batch and every non-negative increment, on a table whose primary keys are
  distinct: a stored row with count at most 5.0 that is the match (the first row the query
  returns) of some entry of the batch has, after the call, the count \<open>min (old count + increment) 5.0\<close>, which is at
  most 5.0, and its last_active_time is a reading of the clock taken during the call; and
  if no stored count exceeded 5.0 before the call, none does after it.
\<close>

theorem update_expressions_count_batch_clamps:
  assumes "distinct (map row_id (db w))" "0 \<le> increment"
    and "i < length (db w)" "row_count (db w ! i) \<le> 5.0"
    and "expr \<in> set batch" "entry_key expr = Some key"
    and "find (key_matches key) (db w) = Some (db w ! i)"
  shows "row_count (db (update_expressions_count_batch time_time batch increment w) ! i) =
           min (row_count (db w ! i) + increment) 5.0 \<and>
         row_count (db (update_expressions_count_batch time_time batch increment w) ! i) \<le> 5.0 \<and>
         (\<exists>t. clock_reads w \<le> t \<and>
              t < clock_reads (update_expressions_count_batch time_time batch increment w) \<and>
              row_last_active_time
                (db (update_expressions_count_batch time_time batch increment w) ! i) =
                time_time t) \<and>
         row_id (db (update_expressions_count_batch time_time batch increment w) ! i) =
           row_id (db w ! i) \<and>
         ((\<forall>row\<in>set (db w). row_count row \<le> 5.0) \<longrightarrow>
          (\<forall>row\<in>set (db (update_expressions_count_batch time_time batch increment w)).
             row_count row \<le> 5.0))"
proof -
  let ?w' = "update_expressions_count_batch time_time batch increment w"
  obtain t where t: "clock_reads w \<le> t" "t < clock_reads ?w'"
    "db ?w' ! i = reinforced increment (time_time t) (db w ! i)"
    using batch_row_reinforced [OF assms(1,3,5,6,7), of time_time increment] by blast
  have "row_count (db ?w' ! i) = min (row_count (db w ! i) + increment) 5.0"
    by (simp add: t(3) reinforced_def)
  moreover have "row_count (db ?w' ! i) \<le> 5.0" by (simp add: t(3) reinforced_def)
  moreover have "\<exists>t. clock_reads w \<le> t \<and> t < clock_reads ?w' \<and>
      row_last_active_time (db ?w' ! i) = time_time t"
    using t(1,2) by (intro exI [of _ t]) (simp add: t(3) reinforced_def)
  moreover have "row_id (db ?w' ! i) = row_id (db w ! i)" by (simp add: t(3))
  moreover have "(\<forall>row\<in>set (db w). row_count row \<le> 5.0) \<longrightarrow>
      (\<forall>row\<in>set (db ?w'). row_count row \<le> 5.0)"
    using batch_counts_bounded [OF assms(1)] by blast
  ultimately show ?thesis by blast
qed

theorem update_expressions_count_batch_clamps_witness:
  "row_count (db (update_expressions_count_batch example_time example_batch 0.1 example_world) ! 0)
     = 5 \<and>
   (\<exists>t. t < clock_reads (update_expressions_count_batch example_time example_batch 0.1 example_world) \<and>
        row_last_active_time
          (db (update_expressions_count_batch example_time example_batch 0.1 example_world) ! 0) =
          example_time t)"
  using update_expressions_count_batch_clamps
    [where w = example_world and increment = "0.1" and i = 0
       and expr = "expression_to_dict example_row1" and batch = example_batch
       and key = "(''c1'', ''style'', ''greeting'', ''casual'')" and time_time = example_time]
  by (simp add: example_row1_def example_row2_def example_row3_def example_world_def
      example_batch_def expression_to_dict_def entry_key_def falsy_def key_matches_def)

section \<open>Properties of the LLM-driven selection\<close>

lemma get_random_expressions_few:
  assumes "length (style_query env chat_id (db w)) < 10"
  shows "get_random_expressions env chat_id 10 w =
           Inr (map expression_to_dict (style_query env chat_id (db w)), w)"
proof (cases "style_query env chat_id (db w) = []")
  case True
  then show ?thesis by (simp add: get_random_expressions_def)
next
  case False
  then show ?thesis using assms
    by (simp add: get_random_expressions_def weighted_sample_def Let_def)
qed

lemma get_random_expressions_world:
  "get_random_expressions env chat_id total_num w = Inr (style_exprs, w1) \<Longrightarrow>
   llm_prompts w1 = llm_prompts w \<and> db w1 = db w \<and> saves w1 = saves w"
  by (auto simp: get_random_expressions_def Let_def split: if_splits sum.splits)

text \<open>
  C1. For every chat id and every \<open>max_num\<close>: when the permission check denies the chat,
  or when fewer than 10 style rows are stored for the chat and its related group, the call
  returns the two empty lists and leaves the world as it was, so no prompt is sent to the
  LLM; and whenever the retrieval returns fewer than 10 dictionaries the call returns the
  two empty lists and the list of prompts sent to the LLM is unchanged. The threshold is
  the constant 10, whatever \<open>max_num\<close> is.
\<close>

theorem select_suitable_expressions_llm_gate:
  "(\<not> can_use_expression_for_chat env chat_id \<longrightarrow>
      select_suitable_expressions_llm env chat_id chat_info max_num target_message w =
        (Inr ([], []), w)) \<and>
   (length (style_query env chat_id (db w)) < 10 \<longrightarrow>
      select_suitable_expressions_llm env chat_id chat_info max_num target_message w =
        (Inr ([], []), w)) \<and>
   (\<forall>style_exprs w1.
      get_random_expressions env chat_id 10 w = Inr (style_exprs, w1) \<and>
      length style_exprs < 10 \<longrightarrow>
      fst (select_suitable_expressions_llm env chat_id chat_info max_num target_message w) =
        Inr ([], []) \<and>
      llm_prompts
        (snd (select_suitable_expressions_llm env chat_id chat_info max_num target_message w)) =
        llm_prompts w)"
proof (intro conjI impI allI)
  assume "\<not> can_use_expression_for_chat env chat_id"
  then show "select_suitable_expressions_llm env chat_id chat_info max_num target_message w =
      (Inr ([], []), w)"
    by (simp add: select_suitable_expressions_llm_def)
next
  assume "length (style_query env chat_id (db w)) < 10"
  then show "select_suitable_expressions_llm env chat_id chat_info max_num target_message w =
      (Inr ([], []), w)"
    by (simp add: select_suitable_expressions_llm_def get_random_expressions_few)
next
  fix style_exprs w1
  assume a: "get_random_expressions env chat_id 10 w = Inr (style_exprs, w1) \<and>
      length style_exprs < 10"
  show "fst (select_suitable_expressions_llm env chat_id chat_info max_num target_message w) =
      Inr ([], [])"
    using a by (simp add: select_suitable_expressions_llm_def)
  show "llm_prompts
      (snd (select_suitable_expressions_llm env chat_id chat_info max_num target_message w)) =
      llm_prompts w"
    using a get_random_expressions_world [of env chat_id 10 w style_exprs w1]
    by (simp add: select_suitable_expressions_llm_def)
qed

theorem select_suitable_expressions_llm_gate_witness:
  "select_suitable_expressions_llm
     (example_env\<lparr>env_get_expression_config_for_chat := (\<lambda>chat_id. Inl (OtherError ''no config''))\<rparr>)
     ''c1'' ''chat so far'' 3 None example_world = (Inr ([], []), example_world) \<and>
   select_suitable_expressions_llm example_env ''c1'' ''chat so far'' 25 None example_world =
     (Inr ([], []), example_world)"
proof -
  let ?denied = "example_env\<lparr>env_get_expression_config_for_chat :=
      (\<lambda>chat_id. Inl (OtherError ''no config''))\<rparr>"
  have h1: "\<not> can_use_expression_for_chat ?denied ''c1''"
    by (simp add: can_use_expression_for_chat_def)
  have h2: "length (style_query example_env ''c1'' (db example_world)) < 10"
    by (simp add: style_query_def example_env_def example_world_def Let_def
        example_row1_def example_row2_def example_row3_def)
  have "select_suitable_expressions_llm ?denied ''c1'' ''chat so far'' 3 None example_world =
      (Inr ([], []), example_world)"
    using select_suitable_expressions_llm_gate
      [where env = ?denied and chat_id = "''c1''" and chat_info = "''chat so far''"
         and max_num = 3 and target_message = None and w = example_world] h1
    by blast
  moreover have "select_suitable_expressions_llm example_env ''c1'' ''chat so far'' 25 None
      example_world = (Inr ([], []), example_world)"
    using select_suitable_expressions_llm_gate
      [where env = example_env and chat_id = "''c1''" and chat_info = "''chat so far''"
         and max_num = 25 and target_message = None and w = example_world] h2
    by blast
  ultimately show ?thesis by blast
qed

lemma select_loop_closed:
  "select_loop all_expressions indices valid_expressions selected_ids =
     (valid_expressions @
        map (\<lambda>n. all_expressions ! nat (n - 1))
          (filter (\<lambda>n. 1 \<le> n \<and> n \<le> int (length all_expressions))
             (List.map_filter int_value indices)),
      selected_ids @
        map (\<lambda>n. d_id (all_expressions ! nat (n - 1)))
          (filter (\<lambda>n. 1 \<le> n \<and> n \<le> int (length all_expressions))
             (List.map_filter int_value indices)))"
proof (induction indices arbitrary: valid_expressions selected_ids)
  case Nil
  then show ?case by simp
next
  case (Cons idx indices)
  show ?case
  proof (cases "int_value idx")
    case None
    then show ?thesis using Cons.IH by simp
  next
    case (Some n)
    then show ?thesis using Cons.IH by (simp add: Let_def)
  qed
qed

lemma process_result_array:
  assumes "map_of items ''selected_situations'' = Some (JArray indices)"
  shows "process_result env all_expressions (JObject items) w =
     (select_loop all_expressions indices [] [],
      if fst (select_loop all_expressions indices [] []) \<noteq> []
      then update_expressions_count_batch (env_time_time env)
             (fst (select_loop all_expressions indices [] [])) 0.006 w
      else w)"
  using assms by (cases "select_loop all_expressions indices [] []") (simp add: process_result_def)

text \<open>
  C2 (as amended). For a parsed response whose \<open>selected_situations\<close> is a list, the
  entries kept are exactly those that are Python ints with a value in the closed range from
  1 to the number of candidates, where a JSON integer is an int and, because \<open>bool\<close> is a
  subclass of \<open>int\<close>, so is a JSON boolean (\<open>true\<close> is 1 and \<open>false\<close> is 0). Each kept
  entry is mapped, in list order, to the candidate at its value minus 1. Every other entry
  is dropped and the call still returns. The id list is the list of the ids of the returned
  expressions, so the two lists have the same length.
\<close>

theorem process_result_selection:
  assumes "map_of items ''selected_situations'' = Some (JArray indices)"
  shows "fst (process_result env all_expressions (JObject items) w) =
           (map (\<lambda>n. all_expressions ! nat (n - 1))
              (filter (\<lambda>n. 1 \<le> n \<and> n \<le> int (length all_expressions))
                 (List.map_filter int_value indices)),
            map (\<lambda>n. d_id (all_expressions ! nat (n - 1)))
              (filter (\<lambda>n. 1 \<le> n \<and> n \<le> int (length all_expressions))
                 (List.map_filter int_value indices))) \<and>
         snd (fst (process_result env all_expressions (JObject items) w)) =
           map d_id (fst (fst (process_result env all_expressions (JObject items) w))) \<and>
         length (snd (fst (process_result env all_expressions (JObject items) w))) =
           length (fst (fst (process_result env all_expressions (JObject items) w)))"
  by (simp add: process_result_array [OF assms] select_loop_closed o_def)

theorem process_result_selection_witness:
  "fst (process_result example_env example_candidates
          (JObject [(''selected_situations'',
             JArray [JInt 1, JInt 3, JInt 4, JInt 0, JString ''x'', JFloat 2])])
          example_world) =
     ([expression_to_dict example_row1, expression_to_dict example_row3], [1, 3])"
  using process_result_selection
    [where items = "[(''selected_situations'',
             JArray [JInt 1, JInt 3, JInt 4, JInt 0, JString ''x'', JFloat 2])]"
       and indices = "[JInt 1, JInt 3, JInt 4, JInt 0, JString ''x'', JFloat 2]"
       and env = example_env and all_expressions = example_candidates and w = example_world]
  by (simp add: example_candidates_def example_row1_def example_row3_def
      expression_to_dict_def)

text \<open>
  C2 as stated drops every non-integer entry. The JSON value \<open>true\<close> is not an integer,
  but \<open>isinstance(True, int)\<close> holds and \<open>1 <= True <= 3\<close>, so the entry is kept and
  resolves to the first candidate.
\<close>

theorem process_result_keeps_json_true:
  "fst (process_result example_env example_candidates
          (JObject [(''selected_situations'', JArray [JBool True])]) example_world) =
     ([expression_to_dict example_row1], [1])"
  by (simp add: process_result_def example_candidates_def example_row1_def
      expression_to_dict_def update_expressions_count_batch_def)

lemma count_list_map_ge: "count_list xs x \<le> count_list (map f xs) (f x)"
  by (induction xs) auto

lemma count_list_filter: "P x \<Longrightarrow> count_list (filter P xs) x = count_list xs x"
  by (induction xs) auto

lemma count_list_map_filter_ge:
  "g x = Some v \<Longrightarrow> count_list xs x \<le> count_list (List.map_filter g xs) v"
  by (induction xs) (auto simp: map_filter_simps split: option.splits)

lemma count_list_pos_member: "0 < count_list xs x \<longleftrightarrow> x \<in> set xs"
  by (induction xs) auto

lemma select_loop_counts:
  assumes "1 \<le> n" "n \<le> int (length all_expressions)"
  shows "count_list indices (JInt n) \<le>
     count_list (fst (select_loop all_expressions indices [] []))
       (all_expressions ! nat (n - 1))"
proof -
  let ?kept = "filter (\<lambda>n. 1 \<le> n \<and> n \<le> int (length all_expressions))
      (List.map_filter int_value indices)"
  have "count_list indices (JInt n) \<le> count_list (List.map_filter int_value indices) n"
    by (rule count_list_map_filter_ge) simp
  also have "\<dots> = count_list ?kept n" using assms by (simp add: count_list_filter)
  also have "\<dots> \<le> count_list (map (\<lambda>n. all_expressions ! nat (n - 1)) ?kept)
      (all_expressions ! nat (n - 1))" by (rule count_list_map_ge)
  finally show ?thesis by (simp add: select_loop_closed)
qed

lemma filter_eq_distinct_length:
  "distinct xs \<Longrightarrow> x \<in> set xs \<Longrightarrow> length (filter (\<lambda>y. y = x) xs) = 1"
  by (induction xs) (auto simp: filter_empty_conv)

text \<open>
  C10 (as amended). On a table whose primary keys are distinct, when a valid index occurs
  in the LLM's list (once or several times), the corresponding expression and its id are
  returned at least once per occurrence, so the returned lists can hold duplicates; and,
  provided the expression has a non-empty source_id, situation and style (so that it has a
  key) and that key matches a stored row, that row's count after the call is
  \<open>min (old count + 0.006) 5.0\<close>, one increment however often the index occurs, and
  exactly one write is made for the key.
\<close>

theorem process_result_reinforces_once:
  assumes "distinct (map row_id (db w))"
    and "map_of items ''selected_situations'' = Some (JArray indices)"
    and "JInt n \<in> set indices" "1 \<le> n" "n \<le> int (length all_expressions)"
    and "entry_key (all_expressions ! nat (n - 1)) = Some key"
    and "i < length (db w)" "find (key_matches key) (db w) = Some (db w ! i)"
  shows "count_list indices (JInt n) \<le>
           count_list (fst (fst (process_result env all_expressions (JObject items) w)))
             (all_expressions ! nat (n - 1)) \<and>
         count_list indices (JInt n) \<le>
           count_list (snd (fst (process_result env all_expressions (JObject items) w)))
             (d_id (all_expressions ! nat (n - 1))) \<and>
         row_count (db (snd (process_result env all_expressions (JObject items) w)) ! i) =
           min (row_count (db w ! i) + 0.006) 5.0 \<and>
         (\<exists>written.
            saves (snd (process_result env all_expressions (JObject items) w)) =
              saves w @ written \<and>
            length (filter (\<lambda>row. row_key row = key) written) = 1)"
proof -
  let ?valid = "fst (select_loop all_expressions indices [] [])"
  let ?expr = "all_expressions ! nat (n - 1)"
  let ?w' = "update_expressions_count_batch (env_time_time env) ?valid 0.006 w"
  have occ: "count_list indices (JInt n) \<le> count_list ?valid ?expr"
    by (rule select_loop_counts [OF assms(4,5)])
  have "0 < count_list indices (JInt n)" using assms(3) by (simp add: count_list_pos_member)
  then have mem: "?expr \<in> set ?valid" using occ by (simp add: count_list_pos_member [symmetric])
  then have ne: "?valid \<noteq> []" by auto
  have res: "process_result env all_expressions (JObject items) w =
      (select_loop all_expressions indices [] [], ?w')"
    using ne by (simp add: process_result_array [OF assms(2)])
  have ids: "snd (select_loop all_expressions indices [] []) = map d_id ?valid"
    by (simp add: select_loop_closed o_def)
  have occ_ids: "count_list indices (JInt n) \<le>
      count_list (snd (select_loop all_expressions indices [] [])) (d_id ?expr)"
    unfolding ids using occ count_list_map_ge [of ?valid ?expr d_id] by (rule order_trans)
  obtain t where t: "db ?w' ! i = reinforced 0.006 (env_time_time env t) (db w ! i)"
    using batch_row_reinforced [OF assms(1,7) mem assms(6,8), of "env_time_time env" "0.006"]
    by blast
  have cnt: "row_count (db ?w' ! i) = min (row_count (db w ! i) + 0.006) 5.0"
    unfolding t by (simp add: reinforced_def)
  obtain written where wr: "saves ?w' = saves w @ written"
    "map row_key written = filter (\<lambda>key. find (key_matches key) (db w) \<noteq> None)
       (map fst (collect_updates ?valid []))"
    "distinct (map row_key written)"
    using batch_written [OF assms(1), of "env_time_time env" ?valid "0.006"] by blast
  have "key \<in> set (map row_key written)"
    unfolding wr(2) using batch_keys_member [OF mem assms(6)] assms(8) by simp
  then have "length (filter (\<lambda>k. k = key) (map row_key written)) = 1"
    using wr(3) by (rule filter_eq_distinct_length [rotated])
  then have one: "length (filter (\<lambda>row. row_key row = key) written) = 1"
    by (simp add: filter_map o_def)
  show ?thesis unfolding res using occ occ_ids cnt wr(1) one by auto
qed

theorem process_result_reinforces_once_witness:
  "2 \<le> count_list
          (fst (fst (process_result example_env example_candidates
             (JObject [(''selected_situations'', JArray [JInt 1, JInt 1])]) example_world)))
          (expression_to_dict example_row1) \<and>
   row_count
     (db (snd (process_result example_env example_candidates
        (JObject [(''selected_situations'', JArray [JInt 1, JInt 1])]) example_world)) ! 0) =
     4.956"
  using process_result_reinforces_once
    [where w = example_world and items = "[(''selected_situations'', JArray [JInt 1, JInt 1])]"
       and indices = "[JInt 1, JInt 1]" and n = 1 and all_expressions = example_candidates
       and key = "(''c1'', ''style'', ''greeting'', ''casual'')" and i = 0
       and env = example_env]
  by (simp add: example_candidates_def example_row1_def example_row2_def example_row3_def
      example_world_def expression_to_dict_def entry_key_def falsy_def key_matches_def)

text \<open>
  C10 as stated promises the increment for every repeated valid index. The third candidate
  comes from a stored row whose style is the empty string: selected twice, it is returned
  twice, but the batch skips an entry with an empty style, so nothing is written and the
  row's count stays as it was.
\<close>

theorem process_result_skips_empty_style:
  "process_result example_env example_candidates
     (JObject [(''selected_situations'', JArray [JInt 3, JInt 3])]) example_world =
     (([expression_to_dict example_row3, expression_to_dict example_row3], [3, 3]),
      example_world)"
  by (simp add: process_result_def example_candidates_def example_row3_def
      expression_to_dict_def update_expressions_count_batch_def entry_key_def falsy_def
      Let_def)

section \<open>Properties of the reply generator\<close>

text \<open>
  C9 (as amended). For every call to \<open>generate\<close> in which the steps before the LLM request
  complete (the observer is refreshed, the history is read and rendered, the prompt is
  built), an exception raised by the LLM request is caught and the call returns the fixed
  apology string; when the request succeeds the call returns its content; such a call
  never raises.
\<close>

theorem generate_fallback:
  assumes "build_prompt self goal knowledge_cache previous_reply = Inr prompt"
  shows "(\<forall>e. rg_generate_response_async self prompt = Inl e \<longrightarrow>
            generate self goal chat_history knowledge_cache previous_reply retry_count =
              Inr apology) \<and>
         (\<forall>content meta. rg_generate_response_async self prompt = Inr (content, meta) \<longrightarrow>
            generate self goal chat_history knowledge_cache previous_reply retry_count =
              Inr content) \<and>
         (\<forall>e. generate self goal chat_history knowledge_cache previous_reply retry_count \<noteq>
            Inl e)"
  using assms by (auto simp: generate_def split: sum.splits)

theorem generate_fallback_witness:
  "generate example_generator ''goal'' [] (KnowledgeList []) None 0 = Inr apology"
proof -
  have "build_prompt example_generator ''goal'' (KnowledgeList []) None =
      Inr (''goal12:00:00,alice:hello'' @ [CHR 0x0A])"
    by (simp add: build_prompt_def example_generator_def example_message_def falsy_def)
  from generate_fallback [OF this, of "[]" 0] show ?thesis
    by (simp add: example_generator_def)
qed

text \<open>
  C9 as stated lets no exception out of \<open>generate\<close>. The rendering of the history is
  outside the \<open>try\<close>: a message without the key \<open>time\<close> raises KeyError, and the call
  raises it.
\<close>

theorem generate_propagates_key_error:
  "generate
     (example_generator\<lparr>rg_get_message_history :=
        (\<lambda>limit. Inr [example_message\<lparr>msg_time := None\<rparr>])\<rparr>)
     ''goal'' [] (KnowledgeList []) None 0 = Inl KeyError"
  by (simp add: generate_def build_prompt_def example_generator_def example_message_def)

end
